theory Spec2Isabelle
  imports Main "HOL-Library.AList" "HOL-Library.Sublist"
begin


section \<open>JavaScript values\<close>

text \<open>
  Settings values, persisted preferences and package fields are JavaScript values of
  type \<^verbatim>\<open>any\<close>. An object value carries the address of the object (its identity)
  together with its own properties in insertion order, so that reference equality and
  the difference between a shallow and a deep copy can be expressed. Numbers are
  integers (\<^verbatim>\<open>NaN\<close>, infinities and fractions are outside the model); arrays,
  functions and inherited properties are outside the model as well.
\<close>

type_synonym addr = nat

datatype jsval =
    JUndefined
  | JNull
  | JBool bool
  | JNum int
  | JStr string
  | JObj addr "(string \<times> jsval) list"

type_synonym props = "(string \<times> jsval) list"

text \<open>JavaScript truthiness (\<^verbatim>\<open>!!v\<close>).\<close>

fun truthy :: "jsval \<Rightarrow> bool" where
  "truthy JUndefined = False"
| "truthy JNull = False"
| "truthy (JBool b) = b"
| "truthy (JNum n) = (n \<noteq> 0)"
| "truthy (JStr s) = (s \<noteq> [])"
| "truthy (JObj a fs) = True"

text \<open>Property read \<^verbatim>\<open>o[k]\<close> (\<^verbatim>\<open>undefined\<close> when absent) and write \<^verbatim>\<open>o[k] = v\<close>
  (an existing key keeps its position, a new key is appended: \<^const>\<open>AList.update\<close>).\<close>

definition getprop :: "props \<Rightarrow> string \<Rightarrow> jsval" where
  "getprop fs k = (case map_of fs k of None \<Rightarrow> JUndefined | Some v \<Rightarrow> v)"

text \<open>\<^verbatim>\<open>Object.assign(target, source)\<close>: every own property of the source is written
  to the target, in the source's order.\<close>

definition obj_assign :: "props \<Rightarrow> props \<Rightarrow> props" where
  "obj_assign target source = fold (\<lambda>kv t. AList.update (fst kv) (snd kv) t) source target"

text \<open>
  Abstract equality \<^verbatim>\<open>a == b\<close>. Values of the same type are compared as
  \<^verbatim>\<open>===\<close> does (objects by reference), \<^verbatim>\<open>null\<close> and \<^verbatim>\<open>undefined\<close> equal each
  other and nothing else. Comparisons between a boolean, a number, a string and an
  object of different types go through the language's \<^verbatim>\<open>ToNumber\<close> and
  \<^verbatim>\<open>ToPrimitive\<close> coercions, which are taken as the parameter \<open>co\<close>.
\<close>

fun loose_eq :: "(jsval \<Rightarrow> jsval \<Rightarrow> bool) \<Rightarrow> jsval \<Rightarrow> jsval \<Rightarrow> bool" where
  "loose_eq co JUndefined y = (y = JUndefined \<or> y = JNull)"
| "loose_eq co JNull y = (y = JUndefined \<or> y = JNull)"
| "loose_eq co x JUndefined = False"
| "loose_eq co x JNull = False"
| "loose_eq co (JBool a) (JBool b) = (a = b)"
| "loose_eq co (JNum a) (JNum b) = (a = b)"
| "loose_eq co (JStr a) (JStr b) = (a = b)"
| "loose_eq co (JObj a fa) (JObj b fb) = (a = b)"
| "loose_eq co x y = co x y"

text \<open>The addresses of the objects reachable from a value, and the value with every
  address erased (its content).\<close>

fun addrs :: "jsval \<Rightarrow> addr list"
and addrs_fields :: "props \<Rightarrow> addr list" where
  "addrs (JObj a fs) = a # addrs_fields fs"
| "addrs v = []"
| "addrs_fields [] = []"
| "addrs_fields (kv # fs) = addrs (snd kv) @ addrs_fields fs"

fun erase :: "jsval \<Rightarrow> jsval"
and erase_fields :: "props \<Rightarrow> props" where
  "erase (JObj a fs) = JObj 0 (erase_fields fs)"
| "erase v = v"
| "erase_fields [] = []"
| "erase_fields (kv # fs) = (fst kv, erase (snd kv)) # erase_fields fs"

text \<open>A deep copy has the content of the original and shares no object with it.\<close>

definition deep_copy_of :: "jsval \<Rightarrow> jsval \<Rightarrow> bool" where
  "deep_copy_of c orig \<longleftrightarrow> erase c = erase orig \<and> set (addrs c) \<inter> set (addrs orig) = {}"

text \<open>A shallow copy is a new object holding the very property values of the original.\<close>

definition shallow_copy_of :: "jsval \<Rightarrow> jsval \<Rightarrow> bool" where
  "shallow_copy_of c orig =
     (case (c, orig) of
        (JObj a fs, JObj r m) \<Rightarrow> a \<notin> set (addrs orig) \<and> fs = m
      | _ \<Rightarrow> False)"

subsection \<open>The helper \<^verbatim>\<open>deepMerge\<close>\<close>

text \<open>
  Modelled from the spec: \<^verbatim>\<open>deepMerge\<close> is imported from \<^verbatim>\<open>./helpers\<close>, which is not
  among the sources. The spec calls it a deep merge that yields full deep copies:
  \<open>deepMerge n a b\<close> builds a new object (at the free address \<open>n\<close>) holding a copy of
  every property of \<open>a\<close>, then every property of \<open>b\<close>; where both sides hold an
  object under the same key the two are merged recursively, otherwise the copy of the
  value of \<open>b\<close> wins. The second component is the next free address.
\<close>

fun clone :: "addr \<Rightarrow> jsval \<Rightarrow> jsval \<times> addr"
and clone_fields :: "addr \<Rightarrow> props \<Rightarrow> props \<times> addr" where
  "clone n (JObj a fs) = (case clone_fields (Suc n) fs of (fs', n') \<Rightarrow> (JObj n fs', n'))"
| "clone n v = (v, n)"
| "clone_fields n [] = ([], n)"
| "clone_fields n (kv # fs) =
     (case clone n (snd kv) of (v', n1) \<Rightarrow>
        (case clone_fields n1 fs of (fs', n2) \<Rightarrow> ((fst kv, v') # fs', n2)))"

fun deepMerge :: "addr \<Rightarrow> jsval \<Rightarrow> jsval \<Rightarrow> jsval \<times> addr"
and merge_fields :: "addr \<Rightarrow> props \<Rightarrow> props \<Rightarrow> props \<times> addr" where
  "deepMerge n (JObj a fa) (JObj b fb) =
     (case clone_fields (Suc n) fa of (dst, n1) \<Rightarrow>
        (case merge_fields n1 dst fb of (fs, n2) \<Rightarrow> (JObj n fs, n2)))"
| "deepMerge n x y = clone n y"
| "merge_fields n dst [] = (dst, n)"
| "merge_fields n dst (kv # src) =
     (case deepMerge n (getprop dst (fst kv)) (snd kv) of (v', n1) \<Rightarrow>
        merge_fields n1 (AList.update (fst kv) v' dst) src)"

section \<open>PluginSettings\<close>

text \<open>
  The class \<^verbatim>\<open>PluginSettings\<close>: the field \<^verbatim>\<open>_settings\<close> is an object, kept as its
  address \<open>settings_ref\<close> and its properties \<open>settings_map\<close>; \<open>schema\<close> is
  \<^verbatim>\<open>_schema\<close>. \<open>next_addr\<close> is the allocation pointer for the objects the class
  creates (\<^verbatim>\<open>{}\<close>, \<^verbatim>\<open>Object.assign({}, ...)\<close>, \<^verbatim>\<open>deepMerge\<close>). Emitted events are returned
  in order.
\<close>

datatype settings_event = Change jsval jsval | Reset jsval jsval

record PluginSettings =
  settings_ref :: addr
  settings_map :: props
  schema :: "jsval option"
  next_addr :: addr

definition settings_val :: "PluginSettings \<Rightarrow> jsval" where
  "settings_val s = JObj (settings_ref s) (settings_map s)"

text \<open>A free address for a method call: beyond the allocation pointer and beyond every
  object of the store and of the arguments.\<close>

definition fresh_base :: "PluginSettings \<Rightarrow> jsval list \<Rightarrow> addr" where
  "fresh_base s args =
     fold max (map Suc (addrs (settings_val s) @ concat (map addrs args))) (next_addr s)"

text \<open>The constructor: \<^verbatim>\<open>_settings = { disabled: false }\<close>, then
  \<^verbatim>\<open>Object.assign(this._settings, _userPluginSettings)\<close>. The argument is an object,
  given by its properties, or \<open>None\<close> for \<^verbatim>\<open>undefined\<close> or \<^verbatim>\<open>null\<close>.\<close>

definition PluginSettings_new :: "props option \<Rightarrow> jsval option \<Rightarrow> PluginSettings" where
  "PluginSettings_new userPluginSettings sch =
     (let user = (case userPluginSettings of None \<Rightarrow> [] | Some fs \<Rightarrow> fs);
          n = fold max (map Suc (addrs_fields user)) 0
      in \<lparr> settings_ref = n,
           settings_map = obj_assign [(''disabled'', JBool False)] user,
           schema = sch,
           next_addr = Suc n \<rparr>)"

definition PluginSettings_get :: "PluginSettings \<Rightarrow> string \<Rightarrow> jsval" where
  "PluginSettings_get s k = getprop (settings_map s) k"

text \<open>
  \<^verbatim>\<open>set(k, v)\<close>: \<open>o\<close> is \<^verbatim>\<open>deepMerge({}, this._settings)\<close>. With a string key the
  method returns when \<^verbatim>\<open>this._settings[k] == v\<close> and assigns otherwise; with an object
  it replaces \<^verbatim>\<open>_settings\<close> by \<^verbatim>\<open>deepMerge(this._settings, k)\<close> (the merge of two
  objects is an object); with anything else it returns. It ends with
  \<^verbatim>\<open>emit('change', Object.assign({}, this._settings), o)\<close>. When the method returns
  early, the copy \<open>o\<close> is unreachable and the allocation pointer stays.
\<close>

definition PluginSettings_set ::
  "(jsval \<Rightarrow> jsval \<Rightarrow> bool) \<Rightarrow> PluginSettings \<Rightarrow> jsval \<Rightarrow> jsval
     \<Rightarrow> PluginSettings \<times> settings_event list" where
  "PluginSettings_set co s k v =
     (let n0 = fresh_base s [k, v] in
      case deepMerge (Suc n0) (JObj n0 []) (settings_val s) of (old, n1) \<Rightarrow>
       (case k of
          JStr key \<Rightarrow>
            if loose_eq co (getprop (settings_map s) key) v then (s, [])
            else
              (let m = AList.update key v (settings_map s)
               in (s\<lparr> settings_map := m, next_addr := Suc n1 \<rparr>,
                   [Change (JObj n1 (obj_assign [] m)) old]))
        | JObj b fb \<Rightarrow>
            (case deepMerge n1 (settings_val s) k of
               (JObj r m, n2) \<Rightarrow>
                 (s\<lparr> settings_ref := r, settings_map := m, next_addr := Suc n2 \<rparr>,
                  [Change (JObj n2 (obj_assign [] m)) old])
             | (other, n2) \<Rightarrow> (s, []))
        | _ \<Rightarrow> (s, [])))"

text \<open>\<^verbatim>\<open>reset()\<close>: \<^verbatim>\<open>val = {}\<close>; the branch on \<^verbatim>\<open>_schema\<close> is empty in the source
  (a TODO); then \<^verbatim>\<open>this.settings = val\<close> and \<^verbatim>\<open>emit('reset', val, o)\<close> with \<open>o\<close> the
  previous object itself.\<close>

definition PluginSettings_reset :: "PluginSettings \<Rightarrow> PluginSettings \<times> settings_event list" where
  "PluginSettings_reset s =
     (let n0 = fresh_base s [];
          old = settings_val s;
          val = (case schema s of Some sch \<Rightarrow> [] | None \<Rightarrow> [])
      in (s\<lparr> settings_ref := n0, settings_map := val, next_addr := Suc n0 \<rparr>,
          [Reset (JObj n0 val) old]))"

text \<open>A store is well formed when the keys of its map are distinct, as the own keys
  of an object are.\<close>

definition wf_settings :: "PluginSettings \<Rightarrow> bool" where
  "wf_settings s \<longleftrightarrow> distinct (map fst (settings_map s))"

text \<open>The store after a sequence of \<^verbatim>\<open>set\<close> calls.\<close>

definition after_sets ::
  "(jsval \<Rightarrow> jsval \<Rightarrow> bool) \<Rightarrow> PluginSettings \<Rightarrow> (jsval \<times> jsval) list \<Rightarrow> PluginSettings" where
  "after_sets co s calls = fold (\<lambda>kv st. fst (PluginSettings_set co st (fst kv) (snd kv))) calls s"

text \<open>A store built from persisted settings that hold a nested object.\<close>

definition example_settings :: PluginSettings where
  "example_settings = PluginSettings_new (Some [(''theme'', JObj 1 [(''x'', JNum 1)])]) None"

section \<open>Errors, themes and observable effects\<close>

text \<open>
  Thrown values. The two error classes of the module are private to it, so a rejection
  of a host call, of the sandbox channel or of a listener is a \<open>foreign\<close> value: an
  \<^verbatim>\<open>Error\<close> object with its message, or any other value (a promise may reject with
  \<^verbatim>\<open>undefined\<close>).
\<close>

datatype foreign = JsError string | Thrown jsval

datatype thrown =
    IllegalPluginPackageError string
  | ExistedImportedPluginPackageError string
  | Foreign foreign

text \<open>Truthiness of a thrown value, as \<^verbatim>\<open>if (loadErr)\<close> and \<^verbatim>\<open>!this._loadErr\<close> test
  it: an error object is truthy.\<close>

fun truthy_thrown :: "thrown \<Rightarrow> bool" where
  "truthy_thrown (Foreign (Thrown v)) = truthy v"
| "truthy_thrown e = True"

datatype ThemeMode = Light | Dark

record Theme =
  theme_name :: string
  theme_url :: string
  theme_mode :: "ThemeMode option"
  theme_pid :: string

text \<open>\<^verbatim>\<open>UserPreferences\<close>: \<^verbatim>\<open>theme\<close>, \<^verbatim>\<open>themes.mode\<close>, \<^verbatim>\<open>themes.light\<close>,
  \<^verbatim>\<open>themes.dark\<close> and \<^verbatim>\<open>externals\<close>; \<open>None\<close> is \<^verbatim>\<open>null\<close>.\<close>

record UserPreferences =
  pref_theme :: "Theme option"
  pref_mode :: ThemeMode
  pref_light :: "Theme option"
  pref_dark :: "Theme option"
  pref_externals :: "string list"

text \<open>
  The release actions a unit pushes on its disposal stack: the function returned by
  \<^verbatim>\<open>_setupUserSettings\<close>, the destruction of the sandbox channel,
  \<^verbatim>\<open>cleanInjectedScripts\<close>, the theme deregistration of the \<^verbatim>\<open>provider:theme\<close>
  handler, and the release actions of injected styles, injected UI and draggable or
  resizable containers (\<open>OtherRelease\<close>).
\<close>

datatype disposer =
    SettingsDisposer
  | DestroyCaller
  | CleanInjectedScripts
  | UnregisterTheme
  | OtherRelease nat

datatype core_event =
    EvRegistered string
  | EvError thrown
  | EvReady
  | EvThemesChanged string
  | EvThemeSelected Theme
  | EvResetCustomTheme
  | EvUnlinkPlugin string
  | EvBeforeReload string
  | EvReloaded string

datatype unit_event = BeforeUnload | Unloaded

datatype message =
    LSPMSG_READY
  | LSPMSG_BEFORE_UNLOAD
  | LSPMSG string string jsval

text \<open>
  What the core does to the outside, in order: events of the orchestrator, events a
  unit emits on itself, messages sent through the sandbox channel of the unit with the
  given identity, release actions invoked, writes through the host, theme injection
  and ejection, subscriptions to a settings store, and logged errors (an error that
  the logger fails on is not recorded). Host reads are not recorded.
\<close>

datatype effect =
    CoreEmit core_event
  | UnitEmit string unit_event
  | CallUserModel string message
  | Release string disposer
  | SavePluginConfig string string
  | SaveUserPreferences UserPreferences
  | WriteFile string string
  | InjectTheme string
  | EjectTheme string
  | ObserveSettings string
  | LogError string thrown

section \<open>PluginLocal and LSPluginCore: state\<close>

datatype PluginLocalLoadStatus = LOADING | UNLOADING | LOADED | UNLOADED | ERROR

text \<open>\<^verbatim>\<open>PluginLocalOptions\<close>, with the fields the lifecycle reads; the descriptive
  fields (author, version, description, title, icon, ...) are left out.\<close>

record PluginLocalOptions =
  opt_key :: "string option"
  opt_url :: string
  opt_entry :: jsval
  opt_devEntry :: jsval
  opt_name :: "string option"
  opt_effect :: bool
  opt_theme :: bool
  opt_settings :: "PluginSettings option"

text \<open>
  \<^verbatim>\<open>PluginLocal\<close>: \<open>plugin_id\<close> is \<^verbatim>\<open>_id\<close>, \<open>caller\<close> tells whether \<^verbatim>\<open>_caller\<close> is
  set, \<open>sdk_version\<close> is \<^verbatim>\<open>_sdk.version\<close>, and \<open>themed\<close> is the flag of the
  \<^verbatim>\<open>provider:theme\<close> handler. \<open>disposing\<close> is not a field of the class: it holds
  the release actions that a disposal started without \<^verbatim>\<open>await\<close> has still to invoke
  (\<open>None\<close> when no such disposal is under way).
\<close>

record PluginLocal =
  plugin_id :: string
  status :: PluginLocalLoadStatus
  loadErr :: "thrown option"
  disposes :: "disposer list"
  caller :: bool
  localRoot :: "string option"
  dotSettingsFile :: "string option"
  options :: PluginLocalOptions
  sdk_version :: "string option"
  themed :: bool
  disposing :: "disposer list option"

text \<open>The parsed package descriptor (\<^verbatim>\<open>package.json\<close>), with the fields that
  \<^verbatim>\<open>_preparePackageConfigs\<close> reads, at their declared types.\<close>

record package =
  pkg_name :: "string option"
  pkg_main :: "string option"
  pkg_effect :: bool
  pkg_devEntry :: jsval
  logseq_id :: "string option"
  logseq_entry :: "string option"
  logseq_main :: "string option"
  logseq_devEntry :: jsval
  logseq_theme :: bool
  logseq_themes :: "Theme list option"

text \<open>
  The environment: the helpers imported from \<^verbatim>\<open>./helpers\<close> (not among the sources)
  are parameters, and so are the answers of the host API, of the sandbox channel, of
  the release actions and of the listeners of a unit's own events. A call that may
  fail answers with \<open>Inl e\<close> or \<open>Some e\<close> when it throws or rejects with \<open>e\<close>.
  \<open>load_plugin_config\<close> answers with the package as \<^verbatim>\<open>JSON.parse\<close> reads it
  (\<open>Inl\<close> also when the parse throws, \<open>Inr None\<close> for a falsy package);
  \<open>load_plugin_user_settings\<close> answers with the settings file and the settings
  object; \<open>write_file\<close> takes the host method and the file name; \<open>genID\<close> gives
  the identifier drawn for the \<open>i\<close>-th unit of a batch; \<open>error_message\<close> is the
  message an error built from \<^verbatim>\<open>e.message\<close> gets.

  \<open>logger_error\<close> is the \<^verbatim>\<open>error\<close> method of the unit's \<^verbatim>\<open>PluginLogger\<close>, a class of
  \<^verbatim>\<open>./helpers\<close>: its first argument names the call (\<open>load\<close> for
  \<^verbatim>\<open>logger.error('load', e, true)\<close>, \<open>beforeunload\<close> and \<open>unload\<close> for
  \<^verbatim>\<open>logger.error('beforeunload', e)\<close> and \<^verbatim>\<open>logger.error('unload', e)\<close>, \<open>settings\<close>
  for \<^verbatim>\<open>logger?.error(e)\<close> in \<^verbatim>\<open>_setupUserSettings\<close>), the second is the logged value,
  and the answer is \<open>None\<close> when the call returns and \<open>Some x\<close> when it throws
  \<open>x\<close>.

  The asynchronous methods are run step by step in program order, each awaited call
  to its end; listeners of the orchestrator's events are taken to return normally.
  The one call that is not awaited is \<^verbatim>\<open>this.dispose()\<close> in the catch clause of
  \<^verbatim>\<open>load\<close>: how far that disposal has got when \<^verbatim>\<open>load\<close> returns depends on how
  the promise jobs are scheduled, so it is an answer of the environment too.
  \<open>dispose_progress\<close> gives, for a unit, the number of steps of the disposal that
  have run by then beyond the first one, which runs inside the call; a step invokes
  one release action, and the last step clears the stack.
\<close>

record env =
  genID :: "nat \<Rightarrow> string"
  safetyPathNormalize :: "string \<Rightarrow> string"
  safetyPathJoin :: "string \<Rightarrow> string \<Rightarrow> string"
  path_normalize :: "string \<Rightarrow> string"
  path_join :: "string \<Rightarrow> string \<Rightarrow> string"
  path_basename :: "string \<Rightarrow> string"
  withFileProtocol :: "string \<Rightarrow> string"
  safeSnakeCase :: "string \<Rightarrow> string"
  PROTOCOL_FILE :: string
  URL_LSP :: string
  error_message :: "foreign \<Rightarrow> string"
  getSDKPathRoot :: "foreign + string"
  load_plugin_config :: "string \<Rightarrow> foreign + package option"
  load_plugin_user_settings :: "string \<Rightarrow> foreign + (string \<times> addr \<times> props)"
  write_file :: "string \<Rightarrow> string \<Rightarrow> foreign + string"
  load_user_preferences :: "foreign + UserPreferences option"
  validate_external_plugins :: "string list \<Rightarrow> foreign + (string \<times> bool) list"
  should_exec_plugin_hook :: "string \<Rightarrow> string \<Rightarrow> bool"
  connectToChild :: "string \<Rightarrow> foreign option"
  await_before_unload :: "string \<Rightarrow> foreign option"
  release :: "string \<Rightarrow> disposer \<Rightarrow> foreign option"
  unit_listener :: "string \<Rightarrow> unit_event \<Rightarrow> foreign option"
  logger_error :: "string \<Rightarrow> thrown \<Rightarrow> foreign option"
  dispose_progress :: "string \<Rightarrow> nat"

text \<open>
  \<^verbatim>\<open>LSPluginCore\<close>: \<open>registeredThemes\<close> and \<open>registeredPlugins\<close> are the two maps in
  insertion order, \<open>currentTheme\<close> the active theme (its \<^verbatim>\<open>pid\<close> is the theme's),
  \<open>ready_waiters\<close> the units whose ready message waits for the batch's ready
  indicator, and \<open>trace\<close> the effects so far.
\<close>

record LSPluginCore =
  isRegistering :: bool
  dotConfigRoot :: string
  userPreferences :: UserPreferences
  registeredThemes :: "(string \<times> Theme list) list"
  registeredPlugins :: "(string \<times> PluginLocal) list"
  currentTheme :: "Theme option"
  ready_waiters :: "string list"
  trace :: "effect list"

definition emit :: "effect list \<Rightarrow> LSPluginCore \<Rightarrow> LSPluginCore" where
  "emit es c = c\<lparr> trace := trace c @ es \<rparr>"

text \<open>A call of the logger in a catch clause: the value is logged, or the call throws
  and the catch clause ends there.\<close>

definition log_error ::
  "env \<Rightarrow> string \<Rightarrow> thrown \<Rightarrow> LSPluginCore \<Rightarrow> foreign option \<times> LSPluginCore" where
  "log_error env tag e c =
     (case logger_error env tag e of
        Some x \<Rightarrow> (Some x, c)
      | None \<Rightarrow> (None, emit [LogError tag e] c))"

section \<open>LSPluginCore: preferences and themes\<close>

text \<open>\<^verbatim>\<open>saveUserPreferences(settings)\<close>: \<^verbatim>\<open>Object.assign\<close> of the given fields, then the
  host call, whose failure is caught and only logged to the debug channel.\<close>

definition saveUserPreferences ::
  "(UserPreferences \<Rightarrow> UserPreferences) \<Rightarrow> LSPluginCore \<Rightarrow> LSPluginCore" where
  "saveUserPreferences patch c =
     (let p = patch (userPreferences c)
      in emit [SaveUserPreferences p] (c\<lparr> userPreferences := p \<rparr>))"

definition registerTheme :: "string \<Rightarrow> Theme \<Rightarrow> LSPluginCore \<Rightarrow> LSPluginCore" where
  "registerTheme pid opt c =
     (if pid = [] then c
      else
        (let themes = (case map_of (registeredThemes c) pid of None \<Rightarrow> [] | Some ts \<Rightarrow> ts)
         in emit [CoreEmit (EvThemesChanged pid)]
              (c\<lparr> registeredThemes := AList.update pid (themes @ [opt]) (registeredThemes c) \<rparr>)))"

text \<open>\<^verbatim>\<open>t?.pid === id ? null : t\<close>.\<close>

definition clear_pid :: "string \<Rightarrow> Theme option \<Rightarrow> Theme option" where
  "clear_pid pid t = (case t of None \<Rightarrow> None | Some th \<Rightarrow> if theme_pid th = pid then None else t)"

definition selectTheme :: "Theme \<Rightarrow> bool \<Rightarrow> bool \<Rightarrow> LSPluginCore \<Rightarrow> LSPluginCore" where
  "selectTheme theme effect do_emit c =
     (let c1 = (case currentTheme c of
                  Some t \<Rightarrow> emit [EjectTheme (theme_url t)] c
                | None \<Rightarrow> c);
          c2 = (if theme_url theme = [] then c1\<lparr> currentTheme := None \<rparr>
                else emit [InjectTheme (theme_url theme)] (c1\<lparr> currentTheme := Some theme \<rparr>));
          c3 = (if effect then
                  saveUserPreferences
                    (case theme_mode theme of
                       Some Light \<Rightarrow> (\<lambda>p. p\<lparr> pref_mode := Light, pref_light := Some theme \<rparr>)
                     | Some Dark \<Rightarrow> (\<lambda>p. p\<lparr> pref_mode := Dark, pref_dark := Some theme \<rparr>)
                     | None \<Rightarrow> (\<lambda>p. p\<lparr> pref_theme := Some theme \<rparr>)) c2
                else c2)
      in if do_emit then emit [CoreEmit (EvThemeSelected theme)] c3 else c3)"

text \<open>
  \<^verbatim>\<open>unregisterTheme(id, effect)\<close>: returns at once when the identity has no entry in
  \<^verbatim>\<open>_registeredThemes\<close>; otherwise deletes the entry and emits \<^verbatim>\<open>themes-changed\<close>,
  and, when \<open>effect\<close> holds and the active theme's pid is the identity, ejects the
  active theme, clears it, saves the preferences with the fields of that pid set to
  \<^verbatim>\<open>null\<close>, and emits \<^verbatim>\<open>reset-custom-theme\<close>.
\<close>

definition unregisterTheme :: "string \<Rightarrow> bool \<Rightarrow> LSPluginCore \<Rightarrow> LSPluginCore" where
  "unregisterTheme pid effect c =
     (if map_of (registeredThemes c) pid = None then c
      else
        (let c1 = emit [CoreEmit (EvThemesChanged pid)]
                    (c\<lparr> registeredThemes := AList.delete pid (registeredThemes c) \<rparr>)
         in case currentTheme c1 of
              None \<Rightarrow> c1
            | Some t \<Rightarrow>
                if effect \<and> theme_pid t = pid then
                  emit [CoreEmit EvResetCustomTheme]
                    (saveUserPreferences
                       (\<lambda>p. p\<lparr> pref_theme := clear_pid pid (pref_theme p),
                                pref_light := clear_pid pid (pref_light p),
                                pref_dark := clear_pid pid (pref_dark p) \<rparr>)
                       (emit [EjectTheme (theme_url t)] (c1\<lparr> currentTheme := None \<rparr>)))
                else c1))"

definition activateUserPreferences :: "LSPluginCore \<Rightarrow> LSPluginCore" where
  "activateUserPreferences c =
     (let p = userPreferences c;
          cur = (case pref_mode p of Light \<Rightarrow> pref_light p | Dark \<Rightarrow> pref_dark p)
      in case cur of
           Some t \<Rightarrow> selectTheme t False True c
         | None \<Rightarrow>
             (case pref_theme p of
                Some t \<Rightarrow> selectTheme t False True c
              | None \<Rightarrow> c))"


section \<open>PluginLocal\<close>

text \<open>Methods whose source name starts with an underscore are named without it;
  \<^verbatim>\<open>_dispose\<close>, which pushes a release action, is \<open>push_dispose\<close>.\<close>

definition PluginLocal_new :: "string \<Rightarrow> PluginLocalOptions \<Rightarrow> PluginLocal" where
  "PluginLocal_new gen opts =
     \<lparr> plugin_id = (case opt_key opts of
                       Some k \<Rightarrow> if k \<noteq> [] then k else gen
                     | None \<Rightarrow> gen),
       status = UNLOADED, loadErr = None, disposes = [], caller = False,
       localRoot = None, dotSettingsFile = None, options = opts,
       sdk_version = None, themed = False, disposing = None \<rparr>"

definition loaded :: "PluginLocal \<Rightarrow> bool" where
  "loaded u \<longleftrightarrow> status u = LOADED"

definition pending :: "PluginLocal \<Rightarrow> bool" where
  "pending u \<longleftrightarrow> status u \<in> set [LOADING, UNLOADING]"

text \<open>\<^verbatim>\<open>get disabled()\<close> is \<^verbatim>\<open>this.settings?.get('disabled')\<close>.\<close>

definition disabled :: "PluginLocal \<Rightarrow> jsval" where
  "disabled u =
     (case opt_settings (options u) of
        None \<Rightarrow> JUndefined
      | Some s \<Rightarrow> PluginSettings_get s ''disabled'')"

definition get_localRoot :: "PluginLocal \<Rightarrow> string" where
  "get_localRoot u =
     (case localRoot u of
        Some r \<Rightarrow> if r \<noteq> [] then r else opt_url (options u)
      | None \<Rightarrow> opt_url (options u))"

definition get_dotConfigRoot :: "env \<Rightarrow> LSPluginCore \<Rightarrow> string" where
  "get_dotConfigRoot env c = path_normalize env (dotConfigRoot c)"

definition DIR_PLUGINS :: string where
  "DIR_PLUGINS = ''plugins''"

definition get_dotPluginsRoot :: "env \<Rightarrow> LSPluginCore \<Rightarrow> string" where
  "get_dotPluginsRoot env c = path_join env (get_dotConfigRoot env c) DIR_PLUGINS"

definition isInstalledInDotRoot :: "env \<Rightarrow> LSPluginCore \<Rightarrow> PluginLocal \<Rightarrow> bool" where
  "isInstalledInDotRoot env c u \<longleftrightarrow>
     get_dotConfigRoot env c \<noteq> [] \<and> get_localRoot u \<noteq> [] \<and>
     prefix (get_dotConfigRoot env c) (get_localRoot u)"

subsection \<open>The disposal stack\<close>

text \<open>\<^verbatim>\<open>_dispose(fn)\<close>: a falsy argument (\<open>None\<close>) is ignored, anything else is
  pushed at the end.\<close>

definition push_dispose :: "disposer option \<Rightarrow> PluginLocal \<Rightarrow> PluginLocal" where
  "push_dispose fn u = (case fn of None \<Rightarrow> u | Some f \<Rightarrow> u\<lparr> disposes := disposes u @ [f] \<rparr>)"

text \<open>
  One release action of unit \<open>pid\<close>. The settings function is \<^verbatim>\<open>() => {}\<close>; the
  theme deregistration calls \<^verbatim>\<open>themeMgr.unregisterTheme(pluginLocal.id)\<close>, an async
  function whose promise is dropped, so neither of the two throws. The others answer
  as the environment says.
\<close>

definition release_outcome :: "env \<Rightarrow> string \<Rightarrow> disposer \<Rightarrow> foreign option" where
  "release_outcome env pid fn =
     (case fn of
        SettingsDisposer \<Rightarrow> None
      | UnregisterTheme \<Rightarrow> None
      | _ \<Rightarrow> release env pid fn)"

text \<open>The body of the loop of \<^verbatim>\<open>dispose\<close>: \<^verbatim>\<open>try { fn && (await fn()) } catch (e)
  { console.error(...) }\<close>.\<close>

definition release_one :: "env \<Rightarrow> string \<Rightarrow> disposer \<Rightarrow> LSPluginCore \<Rightarrow> LSPluginCore" where
  "release_one env pid fn c =
     (let c1 = emit [Release pid fn] c;
          c2 = (case fn of UnregisterTheme \<Rightarrow> unregisterTheme pid True c1 | _ \<Rightarrow> c1)
      in case release_outcome env pid fn of
           None \<Rightarrow> c2
         | Some e \<Rightarrow> emit [LogError ''dispose Error'' (Foreign e)] c2)"

fun run_releases :: "env \<Rightarrow> string \<Rightarrow> disposer list \<Rightarrow> LSPluginCore \<Rightarrow> LSPluginCore" where
  "run_releases env pid [] c = c"
| "run_releases env pid (fn # fns) c = run_releases env pid fns (release_one env pid fn c)"

text \<open>\<^verbatim>\<open>dispose()\<close>: the loop over \<^verbatim>\<open>_disposes\<close>, then \<^verbatim>\<open>this._disposes = []\<close>.\<close>

definition dispose :: "env \<Rightarrow> LSPluginCore \<Rightarrow> PluginLocal \<Rightarrow> LSPluginCore \<times> PluginLocal" where
  "dispose env c u = (run_releases env (plugin_id u) (disposes u) c, u\<lparr> disposes := [] \<rparr>)"

text \<open>
  \<^verbatim>\<open>this.dispose()\<close> called without \<^verbatim>\<open>await\<close>, as the catch clause of \<^verbatim>\<open>load\<close>
  does: the disposal runs \<open>Suc (dispose_progress env pid)\<close> of its steps before the
  caller goes on. A step invokes the next release action; when all are invoked, the
  last step clears the stack. While steps are left, the stack is as it was and the
  actions still to invoke are kept in \<open>disposing\<close>.
\<close>

definition start_dispose ::
  "env \<Rightarrow> LSPluginCore \<Rightarrow> PluginLocal \<Rightarrow> LSPluginCore \<times> PluginLocal" where
  "start_dispose env c u =
     (let n = Suc (dispose_progress env (plugin_id u))
      in (run_releases env (plugin_id u) (take n (disposes u)) c,
          if length (disposes u) < n then u\<lparr> disposes := [], disposing := None \<rparr>
          else u\<lparr> disposing := Some (drop n (disposes u)) \<rparr>))"

text \<open>The remaining steps of a disposal under way, run to the end. In the program they
  run between the steps of whatever code follows; here they are run at once, on the
  state they are given.\<close>

definition settle ::
  "env \<Rightarrow> LSPluginCore \<Rightarrow> PluginLocal \<Rightarrow> LSPluginCore \<times> PluginLocal" where
  "settle env c u =
     (case disposing u of
        None \<Rightarrow> (c, u)
      | Some fns \<Rightarrow>
          (run_releases env (plugin_id u) fns c, u\<lparr> disposes := [], disposing := None \<rparr>))"

text \<open>The release actions among a list of effects, in order.\<close>

fun released :: "effect list \<Rightarrow> disposer list" where
  "released [] = []"
| "released (Release pid fn # es) = fn # released es"
| "released (e # es) = released es"

subsection \<open>Package resolution\<close>

text \<open>\<^verbatim>\<open>a || b\<close> on optional strings, and the truthiness of one.\<close>

definition str_truthy :: "string option \<Rightarrow> bool" where
  "str_truthy a = (case a of None \<Rightarrow> False | Some s \<Rightarrow> s \<noteq> [])"

definition str_or :: "string option \<Rightarrow> string option \<Rightarrow> string option" where
  "str_or a b = (if str_truthy a then a else b)"

text \<open>\<^verbatim>\<open>validateEntry\<close>: \<^verbatim>\<open>main && /\.(js|html)$/.test(main)\<close>.\<close>

definition validateEntry :: "string option \<Rightarrow> bool" where
  "validateEntry main =
     (case main of
        None \<Rightarrow> False
      | Some s \<Rightarrow> s \<noteq> [] \<and> (suffix ''.js'' s \<or> suffix ''.html'' s))"

text \<open>\<^verbatim>\<open>!filePath?.trim()\<close> holds of a string of white space only.\<close>

definition js_blank :: "string \<Rightarrow> bool" where
  "js_blank s = list_all (\<lambda>ch. ch \<in> set [CHR '' '', CHR 0x09, CHR 0x0A, CHR 0x0B, CHR 0x0C, CHR 0x0D]) s"

text \<open>The test of the regular expression \<^verbatim>\<open>/^(http|file)/\<close>.\<close>

definition is_http_or_file :: "string \<Rightarrow> bool" where
  "is_http_or_file s \<longleftrightarrow> prefix ''http'' s \<or> prefix ''file'' s"

definition convertToLSPResource :: "env \<Rightarrow> string \<Rightarrow> string \<Rightarrow> string" where
  "convertToLSPResource env fullUrl dotPluginRoot =
     (if dotPluginRoot \<noteq> [] \<and> prefix (PROTOCOL_FILE env @ dotPluginRoot) fullUrl
      then safetyPathJoin env (URL_LSP env)
             (drop (length (PROTOCOL_FILE env) + length dotPluginRoot) fullUrl)
      else fullUrl)"

text \<open>\<^verbatim>\<open>_resolveResourceFullUrl(filePath, localRoot)\<close>, called with a local root.\<close>

definition resolveResourceFullUrl ::
  "env \<Rightarrow> LSPluginCore \<Rightarrow> PluginLocal \<Rightarrow> string \<Rightarrow> string \<Rightarrow> jsval" where
  "resolveResourceFullUrl env c u filePath lr =
     (if js_blank filePath then JUndefined
      else
        (let fp = (if is_http_or_file filePath then filePath
                   else (let url = path_join env lr filePath
                         in if is_http_or_file url then url else PROTOCOL_FILE env @ url))
         in JStr (if \<not> opt_effect (options u) \<and> isInstalledInDotRoot env c u
                  then convertToLSPResource env fp (get_dotPluginsRoot env c)
                  else fp)))"

text \<open>
  \<^verbatim>\<open>throw new IllegalPluginPackageError(e.message)\<close> in the catch clause of the package
  load: reading \<^verbatim>\<open>message\<close> of \<^verbatim>\<open>undefined\<close> or \<^verbatim>\<open>null\<close> is itself a
  \<^verbatim>\<open>TypeError\<close>.
\<close>

definition wrap_illegal :: "env \<Rightarrow> foreign \<Rightarrow> thrown" where
  "wrap_illegal env e =
     (case e of
        Thrown JUndefined \<Rightarrow> Foreign (JsError ''TypeError'')
      | Thrown JNull \<Rightarrow> Foreign (JsError ''TypeError'')
      | _ \<Rightarrow> IllegalPluginPackageError (error_message env e))"

text \<open>
  \<^verbatim>\<open>_preparePackageConfigs\<close> up to the comment \<^verbatim>\<open>// Validate id\<close>: the package is
  loaded and parsed (\<open>Inr None\<close> is a falsy package), the legal attributes and the
  entry are copied to the options, and the identity is determined. The result is the
  value of \<^verbatim>\<open>logseq.themes\<close>, which the returned function installs.
\<close>

definition resolve_package ::
  "env \<Rightarrow> LSPluginCore \<Rightarrow> PluginLocal
     \<Rightarrow> (thrown + Theme list option) \<times> LSPluginCore \<times> PluginLocal" where
  "resolve_package env c u =
     (let url = opt_url (options u) in
      case (if url = [] then Inl (JsError ''Can not resolve package config location'')
            else (case load_plugin_config env url of
                    Inl e \<Rightarrow> Inl e
                  | Inr None \<Rightarrow>
                      Inl (JsError (''Parse package config error #'' @ url @ ''/package.json''))
                  | Inr (Some pkg) \<Rightarrow> Inr pkg)) of
        Inl e \<Rightarrow> (Inl (wrap_illegal env e), c, u)
      | Inr pkg \<Rightarrow>
          (let lr = safetyPathNormalize env url;
               u1 = u\<lparr> localRoot := Some lr \<rparr>;
               o1 = (options u1)\<lparr> opt_name := pkg_name pkg, opt_effect := pkg_effect pkg \<rparr>;
               o2 = (if \<not> isInstalledInDotRoot env c u1
                     then o1\<lparr> opt_devEntry := pkg_devEntry pkg \<rparr> else o1);
               u2 = u1\<lparr> options := o2 \<rparr>;
               entry = str_or (str_or (logseq_entry pkg) (logseq_main pkg)) (pkg_main pkg);
               u3 = (if validateEntry entry
                     then u2\<lparr> options := (options u2)
                            \<lparr> opt_entry := resolveResourceFullUrl env c u2 (the entry) lr,
                              opt_devEntry := logseq_devEntry pkg \<rparr> \<rparr>
                     else u2);
               u4 = u3\<lparr> options := (options u3)
                      \<lparr> opt_theme := (logseq_theme pkg \<or> logseq_themes pkg \<noteq> None) \<rparr> \<rparr>
           in if isInstalledInDotRoot env c u4
              then (Inr (logseq_themes pkg), c, u4\<lparr> plugin_id := path_basename env lr \<rparr>)
              else if str_truthy (logseq_id pkg)
              then (Inr (logseq_themes pkg), c, u4\<lparr> plugin_id := the (logseq_id pkg) \<rparr>)
              else (Inr (logseq_themes pkg),
                    emit [SavePluginConfig url (plugin_id u4)] c, u4)))"

text \<open>\<^verbatim>\<open>_preparePackageConfigs\<close>: the resolution, then the identity check
  \<^verbatim>\<open>if (isRegistering && registeredPlugins.has(this.id)) throw ...\<close>.\<close>

definition preparePackageConfigs ::
  "env \<Rightarrow> LSPluginCore \<Rightarrow> PluginLocal
     \<Rightarrow> (thrown + Theme list option) \<times> LSPluginCore \<times> PluginLocal" where
  "preparePackageConfigs env c u =
     (case resolve_package env c u of
        (Inl e, c1, u1) \<Rightarrow> (Inl e, c1, u1)
      | (Inr themes, c1, u1) \<Rightarrow>
          if isRegistering c1 \<and> map_of (registeredPlugins c1) (plugin_id u1) \<noteq> None
          then (Inl (ExistedImportedPluginPackageError (plugin_id u1)), c1, u1)
          else (Inr themes, c1, u1))"

subsection \<open>Settings binding and package themes\<close>

text \<open>
  \<^verbatim>\<open>_setupUserSettings(reload)\<close>. Everything after the first check runs in a try
  block whose catch clause logs the error with \<^verbatim>\<open>logger?.error(e)\<close> and returns
  nothing; when that call throws, the method throws. The result is the value handed to
  \<^verbatim>\<open>_dispose\<close>.
\<close>

definition setupUserSettings ::
  "env \<Rightarrow> bool \<Rightarrow> LSPluginCore \<Rightarrow> PluginLocal
     \<Rightarrow> (foreign + disposer option) \<times> LSPluginCore \<times> PluginLocal" where
  "setupUserSettings env reload c u =
     (if opt_settings (options u) \<noteq> None \<and> \<not> reload then (Inr None, c, u)
      else
        (case load_plugin_user_settings env (plugin_id u) of
           Inl e \<Rightarrow>
             (case log_error env ''settings'' (Foreign e) c of
                (Some x, c1) \<Rightarrow> (Inl x, c1, u)
              | (None, c1) \<Rightarrow> (Inr None, c1, u))
         | Inr (file, a, fs) \<Rightarrow>
             (let u1 = u\<lparr> dotSettingsFile := Some file \<rparr>;
                  settings = (case opt_settings (options u1) of
                                Some s \<Rightarrow> s
                              | None \<Rightarrow> PluginSettings_new (Some fs) None)
              in if reload
                 then (Inr None, c,
                       u1\<lparr> options := (options u1)
                           \<lparr> opt_settings :=
                               Some (settings\<lparr> settings_ref := a, settings_map := fs \<rparr>) \<rparr> \<rparr>)
                 else (Inr (Some SettingsDisposer),
                       emit [ObserveSettings (plugin_id u1)] c,
                       u1\<lparr> options := (options u1)\<lparr> opt_settings := Some settings \<rparr> \<rparr>))))"

text \<open>The handler of \<^verbatim>\<open>provider:theme\<close>: the theme is registered, and the
  deregistration is pushed once per unit.\<close>

definition provider_theme ::
  "Theme \<Rightarrow> LSPluginCore \<times> PluginLocal \<Rightarrow> LSPluginCore \<times> PluginLocal" where
  "provider_theme theme cu =
     (case cu of (c, u) \<Rightarrow>
        (let c1 = registerTheme (plugin_id u) theme c
         in if themed u then (c1, u)
            else (c1, (push_dispose (Some UnregisterTheme) u)\<lparr> themed := True \<rparr>)))"

text \<open>\<^verbatim>\<open>_loadConfigThemes\<close>: a theme without url is skipped; a url that does not start
  with \<^verbatim>\<open>http\<close> is joined to the local root.\<close>

definition theme_location :: "env \<Rightarrow> PluginLocal \<Rightarrow> string \<Rightarrow> string" where
  "theme_location env u url =
     (if \<not> prefix ''http'' url \<and> str_truthy (localRoot u)
      then (let joined = path_join env (the (localRoot u)) url
            in if \<not> prefix ''file:'' joined then ''assets://'' @ joined else joined)
      else url)"

definition loadConfigThemes ::
  "env \<Rightarrow> Theme list \<Rightarrow> LSPluginCore \<times> PluginLocal \<Rightarrow> LSPluginCore \<times> PluginLocal" where
  "loadConfigThemes env themes cu =
     fold (\<lambda>t cu. if theme_url t = [] then cu
                   else provider_theme (t\<lparr> theme_url := theme_location env (snd cu) (theme_url t) \<rparr>) cu)
          themes cu"

text \<open>The function \<^verbatim>\<open>_preparePackageConfigs\<close> returns (\<^verbatim>\<open>installPackageThemes\<close>).\<close>

definition installPackageThemes ::
  "env \<Rightarrow> Theme list option \<Rightarrow> LSPluginCore \<times> PluginLocal \<Rightarrow> LSPluginCore \<times> PluginLocal" where
  "installPackageThemes env themes cu =
     (case themes of None \<Rightarrow> cu | Some ts \<Rightarrow> loadConfigThemes env ts cu)"

subsection \<open>Entry normalization\<close>

text \<open>
  \<^verbatim>\<open>_tryToNormalizeEntry\<close>: a development entry replaces the entry; an entry that
  does not end with \<^verbatim>\<open>.js\<close> stays; otherwise the host writes the HTML document and
  its location becomes the entry. \<^verbatim>\<open>entry.endsWith\<close> on a value that is not a string
  is a \<^verbatim>\<open>TypeError\<close>.
\<close>

definition tryToNormalizeEntry ::
  "env \<Rightarrow> LSPluginCore \<Rightarrow> PluginLocal \<Rightarrow> thrown option \<times> LSPluginCore \<times> PluginLocal" where
  "tryToNormalizeEntry env c u =
     (let entry = opt_entry (options u);
          devEntry = (if truthy (opt_devEntry (options u)) then opt_devEntry (options u)
                      else (case opt_settings (options u) of
                              None \<Rightarrow> JUndefined
                            | Some s \<Rightarrow> PluginSettings_get s ''_devEntry''))
      in if truthy devEntry then (None, c, u\<lparr> options := (options u)\<lparr> opt_entry := devEntry \<rparr> \<rparr>)
         else
           (case entry of
              JStr e \<Rightarrow>
                if \<not> suffix ''.js'' e then (None, c, u)
                else
                  (let method = (if isInstalledInDotRoot env c u
                                 then ''write_dotdir_file'' else ''write_user_tmp_file'')
                   in case getSDKPathRoot env of
                        Inl ex \<Rightarrow> (Some (Foreign ex), c, u)
                      | Inr sdkPathRoot \<Rightarrow>
                          (case write_file env method (plugin_id u @ ''_index.html'') of
                             Inl ex \<Rightarrow> (Some (Foreign ex), c, u)
                           | Inr entryPath \<Rightarrow>
                               (None,
                                emit [WriteFile method (plugin_id u @ ''_index.html'')] c,
                                u\<lparr> options := (options u)
                                    \<lparr> opt_entry :=
                                        JStr (convertToLSPResource env
                                                (withFileProtocol env (path_normalize env entryPath))
                                                (get_dotPluginsRoot env c)) \<rparr> \<rparr>)))
            | _ \<Rightarrow> (Some (Foreign (JsError ''TypeError'')), c, u)))"

subsection \<open>load, unload, reload\<close>

record load_opts =
  indicator :: bool
  reload_opt :: bool

text \<open>The steps of \<^verbatim>\<open>load\<close> that can throw. The settings binding throws only what
  its logger throws: \<^verbatim>\<open>_setupUserSettings\<close> catches what its body throws.\<close>

datatype stage = PackageResolution | SettingsBinding | EntryNormalization | SandboxConnection

text \<open>
  The try block of \<^verbatim>\<open>load\<close>. The first component is the value thrown inside the
  block, if any, with the step that threw it and the state at that moment. With an
  indicator the ready message waits for it; without one it is sent at once.
\<close>

definition load_try ::
  "env \<Rightarrow> load_opts \<Rightarrow> LSPluginCore \<Rightarrow> PluginLocal
     \<Rightarrow> (stage \<times> thrown) option \<times> LSPluginCore \<times> PluginLocal" where
  "load_try env opts c u =
     (case preparePackageConfigs env c u of
        (Inl e, c1, u1) \<Rightarrow> (Some (PackageResolution, e), c1, u1)
      | (Inr themes, c1, u1) \<Rightarrow>
          (case setupUserSettings env (reload_opt opts) c1 u1 of
             (Inl x, c2, u2) \<Rightarrow> (Some (SettingsBinding, Foreign x), c2, u2)
           | (Inr fn, c2, u2) \<Rightarrow>
               (case (if \<not> truthy (disabled (push_dispose fn u2))
                      then installPackageThemes env themes (c2, push_dispose fn u2)
                      else (c2, push_dispose fn u2)) of
                  (c3, u3) \<Rightarrow>
                    if truthy (disabled u3) \<or> \<not> truthy (opt_entry (options u3))
                    then (None, c3, u3)
                    else
                      (case tryToNormalizeEntry env c3 u3 of
                         (Some e, c4, u4) \<Rightarrow> (Some (EntryNormalization, e), c4, u4)
                       | (None, c4, u4) \<Rightarrow>
                           (case connectToChild env (plugin_id u4) of
                              Some e \<Rightarrow>
                                (Some (SandboxConnection, Foreign e), c4, u4\<lparr> caller := True \<rparr>)
                            | None \<Rightarrow>
                                (None,
                                 (if indicator opts
                                  then c4\<lparr> ready_waiters := ready_waiters c4 @ [plugin_id u4] \<rparr>
                                  else emit [CallUserModel (plugin_id u4) LSPMSG_READY] c4),
                                 push_dispose (Some CleanInjectedScripts)
                                   (push_dispose (Some DestroyCaller) (u4\<lparr> caller := True \<rparr>))))))))"

text \<open>\<^verbatim>\<open>!this._loadErr\<close>.\<close>

definition no_loadErr :: "PluginLocal \<Rightarrow> bool" where
  "no_loadErr u = (case loadErr u of None \<Rightarrow> True | Some e \<Rightarrow> \<not> truthy_thrown e)"

text \<open>
  \<^verbatim>\<open>load(opts)\<close>: the guard on \<^verbatim>\<open>pending\<close>, the try block, the catch clause (log,
  \<^verbatim>\<open>this.dispose()\<close> without \<^verbatim>\<open>await\<close>, status \<^verbatim>\<open>error\<close>, \<^verbatim>\<open>_loadErr = e\<close>) and
  the finally clause. The first component of the result is \<open>None\<close> when the method
  returns and \<open>Some x\<close> when it rejects with \<open>x\<close>: that happens when the logger
  throws \<open>x\<close> in the catch clause, whose other statements are then skipped; the
  finally clause runs in either case.
\<close>

definition load ::
  "env \<Rightarrow> load_opts \<Rightarrow> LSPluginCore \<Rightarrow> PluginLocal
     \<Rightarrow> foreign option \<times> LSPluginCore \<times> PluginLocal" where
  "load env opts c u =
     (if pending u then (None, c, u)
      else
        (case load_try env opts c (u\<lparr> status := LOADING, loadErr := None \<rparr>) of
           (r, c1, u1) \<Rightarrow>
             (case (case r of
                      None \<Rightarrow> (None, c1, u1)
                    | Some (st, e) \<Rightarrow>
                        (case log_error env ''load'' e c1 of
                           (Some x, c2) \<Rightarrow> (Some x, c2, u1)
                         | (None, c2) \<Rightarrow>
                             (case start_dispose env c2 u1 of
                                (c3, u3) \<Rightarrow>
                                  (None, c3, u3\<lparr> status := ERROR, loadErr := Some e \<rparr>)))) of
                (x, c4, u4) \<Rightarrow>
                  (x, c4, if no_loadErr u4
                          then u4\<lparr> status := (if truthy (disabled u4) then UNLOADED else LOADED) \<rparr>
                          else u4))))"

text \<open>
  The inner try block of \<^verbatim>\<open>unload\<close> awaits the before-unload message (sent when
  the unit has a channel) and emits \<^verbatim>\<open>beforeunload\<close>; its catch clause logs what the
  block throws. The result is what the logger throws there, if it does.
\<close>

definition before_unload ::
  "env \<Rightarrow> LSPluginCore \<Rightarrow> PluginLocal \<Rightarrow> foreign option \<times> LSPluginCore" where
  "before_unload env c u =
     (let pid = plugin_id u;
          c1 = (if caller u then emit [CallUserModel pid LSPMSG_BEFORE_UNLOAD] c else c)
      in case (if caller u then await_before_unload env pid else None) of
           Some e \<Rightarrow> log_error env ''beforeunload'' (Foreign e) c1
         | None \<Rightarrow>
             (case unit_listener env pid BeforeUnload of
                Some e \<Rightarrow>
                  log_error env ''beforeunload'' (Foreign e) (emit [UnitEmit pid BeforeUnload] c1)
              | None \<Rightarrow> (None, emit [UnitEmit pid BeforeUnload] c1)))"

text \<open>
  The try block of \<^verbatim>\<open>unload\<close> for \<^verbatim>\<open>unregister = false\<close>: for a loaded unit the
  inner try block and the disposal of the stack, then \<^verbatim>\<open>unloaded\<close> is emitted. The
  block throws what the logger of the inner catch clause throws, skipping the disposal
  and the event, and what a listener of \<^verbatim>\<open>unloaded\<close> throws.
\<close>

definition unload_try ::
  "env \<Rightarrow> LSPluginCore \<Rightarrow> PluginLocal \<Rightarrow> thrown option \<times> LSPluginCore \<times> PluginLocal" where
  "unload_try env c u =
     (case (if loaded u
            then (case before_unload env c (u\<lparr> status := UNLOADING \<rparr>) of
                    (Some x, c1) \<Rightarrow> (Some (Foreign x), c1, u\<lparr> status := UNLOADING \<rparr>)
                  | (None, c1) \<Rightarrow>
                      (case dispose env c1 (u\<lparr> status := UNLOADING \<rparr>) of
                         (c2, u2) \<Rightarrow> (None, c2, u2)))
            else (None, c, u)) of
        (Some x, c1, u1) \<Rightarrow> (Some x, c1, u1)
      | (None, c1, u1) \<Rightarrow>
          (map_option Foreign (unit_listener env (plugin_id u1) Unloaded),
           emit [UnitEmit (plugin_id u1) Unloaded] c1, u1))"

text \<open>\<^verbatim>\<open>unload()\<close> with \<^verbatim>\<open>unregister = false\<close> after the guard: the try block, the
  catch clause that logs, and the finally clause that sets the status. The method
  rejects with what the logger throws in the catch clause.\<close>

definition unload_plain ::
  "env \<Rightarrow> LSPluginCore \<Rightarrow> PluginLocal \<Rightarrow> foreign option \<times> LSPluginCore \<times> PluginLocal" where
  "unload_plain env c u =
     (case unload_try env c u of
        (r, c1, u1) \<Rightarrow>
          (case (case r of None \<Rightarrow> (None, c1) | Some e \<Rightarrow> log_error env ''unload'' e c1) of
             (x, c2) \<Rightarrow> (x, c2, u1\<lparr> status := UNLOADED \<rparr>)))"

text \<open>
  \<^verbatim>\<open>unload(unregister)\<close>. With \<^verbatim>\<open>unregister\<close> the method awaits \<^verbatim>\<open>this.unload()\<close>,
  which passes the guard again since the status has not changed, and then emits
  \<^verbatim>\<open>unlink-plugin\<close> on the orchestrator for a unit installed under the managed root.
\<close>

definition unload ::
  "env \<Rightarrow> bool \<Rightarrow> LSPluginCore \<Rightarrow> PluginLocal
     \<Rightarrow> foreign option \<times> LSPluginCore \<times> PluginLocal" where
  "unload env unregister c u =
     (if pending u then (None, c, u)
      else if unregister then
        (case unload_plain env c u of
           (Some x, c1, u1) \<Rightarrow> (Some x, c1, u1)
         | (None, c1, u1) \<Rightarrow>
             (None,
              if isInstalledInDotRoot env c1 u1
              then emit [CoreEmit (EvUnlinkPlugin (plugin_id u1))] c1 else c1, u1))
      else unload_plain env c u)"

text \<open>\<^verbatim>\<open>reload()\<close>: a rejection of the awaited \<^verbatim>\<open>unload\<close> or \<^verbatim>\<open>load\<close> ends the
  method.\<close>

definition reload ::
  "env \<Rightarrow> LSPluginCore \<Rightarrow> PluginLocal \<Rightarrow> foreign option \<times> LSPluginCore \<times> PluginLocal" where
  "reload env c u =
     (if pending u then (None, c, u)
      else
        (case unload env False (emit [CoreEmit (EvBeforeReload (plugin_id u))] c) u of
           (Some x, c1, u1) \<Rightarrow> (Some x, c1, u1)
         | (None, c1, u1) \<Rightarrow>
             (case load env \<lparr> indicator = False, reload_opt = True \<rparr> c1 u1 of
                (Some x, c2, u2) \<Rightarrow> (Some x, c2, u2)
              | (None, c2, u2) \<Rightarrow> (None, emit [CoreEmit (EvReloaded (plugin_id u2))] c2, u2))))"

section \<open>LSPluginCore: registration and hooks\<close>

text \<open>A \<^verbatim>\<open>Set\<close> of strings in insertion order.\<close>

definition set_add :: "string \<Rightarrow> string list \<Rightarrow> string list" where
  "set_add x xs = (if x \<in> set xs then xs else xs @ [x])"

definition set_of_list :: "string list \<Rightarrow> string list" where
  "set_of_list xs = fold set_add xs []"

text \<open>The descriptor \<^verbatim>\<open>{ url }\<close>.\<close>

definition url_descriptor :: "string \<Rightarrow> PluginLocalOptions" where
  "url_descriptor url =
     \<lparr> opt_key = None, opt_url = url, opt_entry = JUndefined, opt_devEntry = JUndefined,
       opt_name = None, opt_effect = False, opt_theme = False, opt_settings = None \<rparr>"

text \<open>\<^verbatim>\<open>loadUserPreferences\<close>: truthy settings of the host replace the preferences; a
  failure is caught.\<close>

definition loadUserPreferences :: "env \<Rightarrow> LSPluginCore \<Rightarrow> LSPluginCore" where
  "loadUserPreferences env c =
     (case load_user_preferences env of
        Inr (Some p) \<Rightarrow> c\<lparr> userPreferences := p \<rparr>
      | _ \<Rightarrow> c)"

text \<open>The external origins the host accepts (all of them when the validation fails).\<close>

definition valid_externals :: "env \<Rightarrow> LSPluginCore \<Rightarrow> string list \<times> LSPluginCore" where
  "valid_externals env c =
     (let externals = set_of_list (pref_externals (userPreferences c))
      in if externals = [] then (externals, c)
         else (case validate_external_plugins env externals of
                 Inl e \<Rightarrow> (externals, emit [LogError ''validatedExternals Error'' (Foreign e)] c)
               | Inr validated \<Rightarrow> (set_of_list (map fst (filter snd validated)), c)))"

text \<open>\<^verbatim>\<open>loadErr instanceof IllegalPluginPackageError || loadErr instanceof
  ExistedImportedPluginPackageError\<close>.\<close>

fun skipped :: "thrown option \<Rightarrow> bool" where
  "skipped (Some (IllegalPluginPackageError m)) = True"
| "skipped (Some (ExistedImportedPluginPackageError m)) = True"
| "skipped e = False"



text \<open>
  One round of the loop of \<^verbatim>\<open>register\<close> for the descriptor \<open>p\<close>, the \<open>i\<close>-th of the
  batch: the unit is constructed and loaded with the batch's ready indicator; a
  truthy \<^verbatim>\<open>loadErr\<close> is emitted as \<^verbatim>\<open>error\<close>, and the round ends there for the two
  error classes of the module; otherwise the settings are observed, the unit enters the
  registry under its identity, \<^verbatim>\<open>registered\<close> is emitted, and the origin of a unit
  outside the managed root joins the externals. When the awaited \<^verbatim>\<open>load\<close> rejects
  with \<open>x\<close>, the round throws \<open>x\<close> (first component \<open>Some x\<close>).
\<close>

definition register_one ::
  "env \<Rightarrow> nat \<Rightarrow> PluginLocalOptions \<Rightarrow> string list \<times> LSPluginCore
     \<Rightarrow> foreign option \<times> string list \<times> LSPluginCore" where
  "register_one env i p xc =
     (case xc of (externals, c) \<Rightarrow>
        (case load env \<lparr> indicator = True, reload_opt = False \<rparr> c
                (PluginLocal_new (genID env i) p) of
           (Some x, c1, u) \<Rightarrow> (Some x, externals, c1)
         | (None, c1, u) \<Rightarrow>
             (let c2 = (case loadErr u of
                          Some e \<Rightarrow> if truthy_thrown e then emit [CoreEmit (EvError e)] c1 else c1
                        | None \<Rightarrow> c1)
              in if skipped (loadErr u) then (None, externals, c2)
                 else
                   (let c3 = (if opt_settings (options u) \<noteq> None
                              then emit [ObserveSettings (plugin_id u)] c2 else c2);
                        c4 = emit [CoreEmit (EvRegistered (plugin_id u))]
                               (c3\<lparr> registeredPlugins :=
                                      AList.update (plugin_id u) u (registeredPlugins c3) \<rparr>)
                    in (None,
                        if \<not> isInstalledInDotRoot env c4 u
                        then set_add (opt_url p) externals else externals, c4)))))"

text \<open>The loop: a round that throws ends it.\<close>

fun register_loop ::
  "env \<Rightarrow> nat \<Rightarrow> PluginLocalOptions list \<Rightarrow> string list \<times> LSPluginCore
     \<Rightarrow> foreign option \<times> string list \<times> LSPluginCore" where
  "register_loop env i [] xc = (None, xc)"
| "register_loop env i (p # ps) xc =
     (case register_one env i p xc of
        (Some x, xc') \<Rightarrow> (Some x, xc')
      | (None, xc') \<Rightarrow> register_loop env (Suc i) ps xc')"

text \<open>
  \<^verbatim>\<open>register(plugins, initial)\<close> for a list. After the loop the externals are saved,
  the preferred theme is activated and the ready indicator is resolved; what the loop
  throws is caught and written to the console, and the three steps are skipped. The
  finally clause clears \<^verbatim>\<open>_isRegistering\<close> and emits \<^verbatim>\<open>ready\<close>. The ready messages
  that waited for the indicator follow when it was resolved.
\<close>

definition register ::
  "env \<Rightarrow> PluginLocalOptions list \<Rightarrow> bool \<Rightarrow> LSPluginCore \<Rightarrow> LSPluginCore" where
  "register env plugins initial c =
     (case valid_externals env
             (loadUserPreferences env (c\<lparr> isRegistering := True, ready_waiters := [] \<rparr>)) of
        (externals, c1) \<Rightarrow>
          (let batch =
                 (if initial
                  then plugins @
                       map url_descriptor
                         (filter (\<lambda>url. plugins = [] \<or>
                                    list_all (\<lambda>p. \<not> truthy (opt_entry p) \<and> opt_url p \<noteq> url) plugins)
                                 externals)
                  else plugins)
           in case register_loop env 0 batch (externals, c1) of
                (Some x, externals', c2) \<Rightarrow>
                  emit [CoreEmit EvReady]
                    ((emit [LogError ''register'' (Foreign x)] c2)\<lparr> isRegistering := False \<rparr>)
              | (None, externals', c2) \<Rightarrow>
                  (let c3 = activateUserPreferences
                              (saveUserPreferences (\<lambda>p. p\<lparr> pref_externals := externals' \<rparr>) c2);
                       c4 = emit [CoreEmit EvReady] (c3\<lparr> isRegistering := False \<rparr>)
                   in emit (map (\<lambda>pid. CallUserModel pid LSPMSG_READY) (ready_waiters c4))
                        (c4\<lparr> ready_waiters := [] \<rparr>))))"

text \<open>\<^verbatim>\<open>register(plugin)\<close> for a single descriptor is \<^verbatim>\<open>register([plugin])\<close>.\<close>

definition register_single :: "env \<Rightarrow> PluginLocalOptions \<Rightarrow> LSPluginCore \<Rightarrow> LSPluginCore" where
  "register_single env p c = register env [p] False c"

text \<open>\<^verbatim>\<open>act(p)\<close> in \<^verbatim>\<open>_hook\<close>: \<^verbatim>\<open>p.caller?.callUserModel(LSPMSG, { ns, type, payload })\<close>.\<close>

definition act ::
  "env \<Rightarrow> string \<Rightarrow> string \<Rightarrow> jsval \<Rightarrow> PluginLocal \<Rightarrow> LSPluginCore \<Rightarrow> LSPluginCore" where
  "act env ns type payload p c =
     (if caller p
      then emit [CallUserModel (plugin_id p) (LSPMSG ns (safeSnakeCase env type) payload)] c
      else c)"

text \<open>The loop of \<^verbatim>\<open>_hook\<close> over the registry.\<close>

fun hook_loop ::
  "env \<Rightarrow> string \<Rightarrow> string \<Rightarrow> jsval \<Rightarrow> string option \<Rightarrow> (string \<times> PluginLocal) list
     \<Rightarrow> LSPluginCore \<Rightarrow> LSPluginCore" where
  "hook_loop env ns type payload pid [] c = c"
| "hook_loop env ns type payload pid (kp # ps) c =
     (let p = snd kp; hook = ns @ '':'' @ safeSnakeCase env type
      in if \<not> truthy (opt_entry (options p)) \<or> truthy (disabled p)
         then hook_loop env ns type payload pid ps c
         else if \<not> str_truthy pid then
           (if \<not> str_truthy (sdk_version p) then
              (if hook = ''hook:db:changed'' \<or> prefix ''hook:db:block'' hook
               then hook_loop env ns type payload pid ps c
               else hook_loop env ns type payload pid ps (act env ns type payload p c))
            else if should_exec_plugin_hook env (plugin_id p) hook
            then hook_loop env ns type payload pid ps (act env ns type payload p c)
            else hook_loop env ns type payload pid ps c)
         else if pid = Some (plugin_id p) then act env ns type payload p c
         else hook_loop env ns type payload pid ps c)"

text \<open>\<^verbatim>\<open>_hook(ns, type, payload, pid)\<close>.\<close>

definition hook ::
  "env \<Rightarrow> string \<Rightarrow> string \<Rightarrow> jsval \<Rightarrow> string option \<Rightarrow> LSPluginCore \<Rightarrow> LSPluginCore" where
  "hook env ns type payload pid c =
     (case (if str_truthy pid then map_of (registeredPlugins c) (the pid) else None) of
        Some p \<Rightarrow>
          if \<not> truthy (disabled p) \<and> truthy (opt_entry (options p))
          then act env ns type payload p c
          else hook_loop env ns type payload pid (registeredPlugins c) c
      | None \<Rightarrow> hook_loop env ns type payload pid (registeredPlugins c) c)"

definition hookApp :: "env \<Rightarrow> string \<Rightarrow> jsval \<Rightarrow> string option \<Rightarrow> LSPluginCore \<Rightarrow> LSPluginCore" where
  "hookApp env type payload pid c = hook env ''hook:app'' type payload pid c"

definition hookEditor :: "env \<Rightarrow> string \<Rightarrow> jsval \<Rightarrow> string option \<Rightarrow> LSPluginCore \<Rightarrow> LSPluginCore" where
  "hookEditor env type payload pid c = hook env ''hook:editor'' type payload pid c"

definition hookDb :: "env \<Rightarrow> string \<Rightarrow> jsval \<Rightarrow> string option \<Rightarrow> LSPluginCore \<Rightarrow> LSPluginCore" where
  "hookDb env type payload pid c = hook env ''hook:db'' type payload pid c"


section \<open>Initial states and a sample environment\<close>

text \<open>The state of \<^verbatim>\<open>new LSPluginCore(options)\<close>.\<close>

definition LSPluginCore_new :: "string \<Rightarrow> LSPluginCore" where
  "LSPluginCore_new root =
     \<lparr> isRegistering = False, dotConfigRoot = root,
       userPreferences = \<lparr> pref_theme = None, pref_mode = Light, pref_light = None,
                           pref_dark = None, pref_externals = [] \<rparr>,
       registeredThemes = [], registeredPlugins = [], currentTheme = None,
       ready_waiters = [], trace = [] \<rparr>"

text \<open>
  A package with a script entry and a declared identity, and an environment in which
  every call of the host and of the sandbox succeeds: the host serves that package for
  every origin and empty settings for every identity. Its logger fails on \<^verbatim>\<open>null\<close>
  and \<^verbatim>\<open>undefined\<close>, with a \<^verbatim>\<open>TypeError\<close>, and logs every other value; a disposal
  that is not awaited has run two steps when its caller goes on. The concrete runs
  below vary the environment field by field.
\<close>

definition demo_package :: package where
  "demo_package =
     \<lparr> pkg_name = Some ''demo'', pkg_main = Some ''index.js'', pkg_effect = False,
       pkg_devEntry = JUndefined, logseq_id = Some ''demo-id'', logseq_entry = None,
       logseq_main = None, logseq_devEntry = JUndefined, logseq_theme = False,
       logseq_themes = None \<rparr>"

definition demo_env :: env where
  "demo_env =
     \<lparr> genID = (\<lambda>i. ''generated''),
       safetyPathNormalize = (\<lambda>p. p),
       safetyPathJoin = (\<lambda>a b. a @ b),
       path_normalize = (\<lambda>p. p),
       path_join = (\<lambda>a b. a @ ''/'' @ b),
       path_basename = (\<lambda>p. p),
       withFileProtocol = (\<lambda>p. ''file://'' @ p),
       safeSnakeCase = (\<lambda>s. s),
       PROTOCOL_FILE = ''file://'',
       URL_LSP = ''lsp://logseq.io/'',
       error_message = (\<lambda>e. case e of JsError m \<Rightarrow> m | Thrown v \<Rightarrow> []),
       getSDKPathRoot = Inr ''/sdk'',
       load_plugin_config = (\<lambda>url. Inr (Some demo_package)),
       load_plugin_user_settings = (\<lambda>pid. Inr (''/settings/'' @ pid, 0, [])),
       write_file = (\<lambda>method name. Inr (''/tmp/'' @ name)),
       load_user_preferences = Inr None,
       validate_external_plugins = (\<lambda>urls. Inr (map (\<lambda>u. (u, True)) urls)),
       should_exec_plugin_hook = (\<lambda>pid h. True),
       connectToChild = (\<lambda>pid. None),
       await_before_unload = (\<lambda>pid. None),
       release = (\<lambda>pid fn. None),
       unit_listener = (\<lambda>pid ev. None),
       logger_error = (\<lambda>tag e. case e of
                          Foreign (Thrown JNull) \<Rightarrow> Some (JsError ''TypeError'')
                        | Foreign (Thrown JUndefined) \<Rightarrow> Some (JsError ''TypeError'')
                        | _ \<Rightarrow> None),
       dispose_progress = (\<lambda>pid. 1) \<rparr>"


definition demo_theme :: Theme where
  "demo_theme = \<lparr> theme_name = ''night'', theme_url = ''night.css'', theme_mode = Some Dark,
                   theme_pid = ''demo-id'' \<rparr>"

definition demo_core :: LSPluginCore where
  "demo_core = LSPluginCore_new ''/root/.logseq''"

definition demo_unit :: PluginLocal where
  "demo_unit = PluginLocal_new ''generated'' (url_descriptor ''/ext/demo'')"

definition plain_load :: load_opts where
  "plain_load = \<lparr> indicator = False, reload_opt = False \<rparr>"

text \<open>Environments in which one call fails: the sandbox connection, the load of the
  user settings, the write of the entry document; one in which everything that
  \<^verbatim>\<open>unload\<close> calls throws, the listeners throwing \<^verbatim>\<open>null\<close>; and one in which the
  before-unload message is rejected with \<^verbatim>\<open>null\<close>.\<close>

definition env_connect_fails :: env where
  "env_connect_fails = demo_env\<lparr> connectToChild := (\<lambda>pid. Some (JsError ''handshake Timeout'')) \<rparr>"

definition env_settings_fail :: env where
  "env_settings_fail = demo_env\<lparr> load_plugin_user_settings := (\<lambda>pid. Inl (JsError ''EACCES'')) \<rparr>"

definition env_write_fails :: env where
  "env_write_fails = demo_env\<lparr> write_file := (\<lambda>method name. Inl (JsError ''ENOSPC'')) \<rparr>"

definition env_unload_throws :: env where
  "env_unload_throws =
     demo_env\<lparr> await_before_unload := (\<lambda>pid. Some (JsError ''closed'')),
               release := (\<lambda>pid fn. Some (JsError ''release failed'')),
               unit_listener := (\<lambda>pid ev. Some (Thrown JNull)) \<rparr>"

definition env_before_unload_null :: env where
  "env_before_unload_null = demo_env\<lparr> await_before_unload := (\<lambda>pid. Some (Thrown JNull)) \<rparr>"

text \<open>The sample unit after a load in which every call succeeds, and the orchestrator
  at that moment.\<close>

definition unit_loaded :: PluginLocal where
  "unit_loaded = snd (snd (load demo_env plain_load demo_core demo_unit))"

definition core_loaded :: LSPluginCore where
  "core_loaded = fst (snd (load demo_env plain_load demo_core demo_unit))"

text \<open>The orchestrator after registering one descriptor: with every call succeeding,
  and with the write of the entry document failing.\<close>

definition core_registered :: LSPluginCore where
  "core_registered = register demo_env [url_descriptor ''/ext/demo''] False demo_core"

definition core_failed_write :: LSPluginCore where
  "core_failed_write = register env_write_fails [url_descriptor ''/ext/demo''] False demo_core"

text \<open>The orchestrator with the theme of \<open>demo-id\<close> active: activated from the
  preferences without a registered contribution, and registered then selected.\<close>

definition core_theme_from_prefs :: LSPluginCore where
  "core_theme_from_prefs = selectTheme demo_theme False True demo_core"

definition core_theme_registered :: LSPluginCore where
  "core_theme_registered =
     selectTheme demo_theme True True (registerTheme ''demo-id'' demo_theme demo_core)"


section \<open>Reading a trace\<close>

text \<open>The events units emit on themselves among a list of effects, in order.\<close>

fun unit_events :: "effect list \<Rightarrow> (string \<times> unit_event) list" where
  "unit_events [] = []"
| "unit_events (UnitEmit pid ev # es) = (pid, ev) # unit_events es"
| "unit_events (e # es) = unit_events es"

text \<open>The orchestrator's events among a list of effects, in order.\<close>

fun core_events :: "effect list \<Rightarrow> core_event list" where
  "core_events [] = []"
| "core_events (CoreEmit ev # es) = ev # core_events es"
| "core_events (e # es) = core_events es"

text \<open>The messages sent through sandbox channels, with the identity of the unit.\<close>

fun sandbox_messages :: "effect list \<Rightarrow> (string \<times> message) list" where
  "sandbox_messages [] = []"
| "sandbox_messages (CallUserModel pid m # es) = (pid, m) # sandbox_messages es"
| "sandbox_messages (e # es) = sandbox_messages es"

text \<open>The kinds of orchestrator events: those of theme management, and those of
  registration.\<close>

fun theme_event :: "core_event \<Rightarrow> bool" where
  "theme_event (EvThemesChanged pid) = True"
| "theme_event EvResetCustomTheme = True"
| "theme_event (EvThemeSelected t) = True"
| "theme_event ev = False"




text \<open>The registry and the flags a unit's own lifecycle leaves alone.\<close>

definition same_registry :: "LSPluginCore \<Rightarrow> LSPluginCore \<Rightarrow> bool" where
  "same_registry c c' \<longleftrightarrow>
     isRegistering c' = isRegistering c \<and> registeredPlugins c' = registeredPlugins c \<and>
     dotConfigRoot c' = dotConfigRoot c"

text \<open>
  \<open>grows c c'\<close>: the state \<open>c'\<close> comes from \<open>c\<close> by adding effects that emit none
  but theme events on the orchestrator, with the registry untouched.
\<close>

definition grows :: "LSPluginCore \<Rightarrow> LSPluginCore \<Rightarrow> bool" where
  "grows c c' \<longleftrightarrow>
     same_registry c c' \<and>
     (\<exists>es. trace c' = trace c @ es \<and> list_all theme_event (core_events es))"

text \<open>\<open>keeps_identity u u'\<close>: the unit \<open>u'\<close> has the identity, the origin and the
  recorded error of \<open>u\<close>.\<close>

definition keeps_identity :: "PluginLocal \<Rightarrow> PluginLocal \<Rightarrow> bool" where
  "keeps_identity u u' \<longleftrightarrow>
     plugin_id u' = plugin_id u \<and> opt_url (options u') = opt_url (options u) \<and>
     loadErr u' = loadErr u"


lemma getprop_Cons: "getprop ((k', v) # fs) k = (if k = k' then v else getprop fs k)"
  by (simp add: getprop_def)

lemma getprop_update:
  "getprop (AList.update k v m) k' = (if k' = k then v else getprop m k')"
  by (simp add: getprop_def update_conv')

lemma getprop_absent: "k \<notin> fst ` set fs \<Longrightarrow> getprop fs k = JUndefined"
  by (simp add: getprop_def map_of_eq_None_iff[THEN iffD2])

lemma loose_eq_refl: "loose_eq co x x"
  by (cases x) simp_all

lemma update_absent: "k \<notin> fst ` set al \<Longrightarrow> AList.update k v al = al @ [(k, v)]"
  by (induction al) auto

lemma fold_max_ge: "(b::nat) \<le> fold max xs b"
  by (induction xs arbitrary: b) (auto intro: order_trans[OF max.cobounded2])

lemma fold_max_mem: "(x::nat) \<in> set xs \<Longrightarrow> x \<le> fold max xs b"
  by (induction xs arbitrary: b) (auto intro: order_trans[OF max.cobounded1 fold_max_ge])

lemma clone_bounds:
  "clone n v = (v', n') \<Longrightarrow> n \<le> n' \<and> (\<forall>a\<in>set (addrs v'). n \<le> a \<and> a < n')"
  "clone_fields n fs = (fs', n') \<Longrightarrow> n \<le> n' \<and> (\<forall>a\<in>set (addrs_fields fs'). n \<le> a \<and> a < n')"
  by (induction n v and n fs arbitrary: v' n' and fs' n' rule: clone_clone_fields.induct)
     (fastforce split: prod.splits)+

lemma erase_clone:
  "erase (fst (clone n v)) = erase v"
  "erase_fields (fst (clone_fields n fs)) = erase_fields fs"
  by (induction n v and n fs rule: clone_clone_fields.induct) (auto split: prod.splits)

lemma keys_clone_fields': "clone_fields n fs = (fs', n') \<Longrightarrow> map fst fs' = map fst fs"
  by (induction fs arbitrary: n fs' n') (auto split: prod.splits)

lemma keys_clone_fields: "map fst (fst (clone_fields n fs)) = map fst fs"
  using keys_clone_fields'[of n fs] by (cases "clone_fields n fs") simp

lemma merge_fields_fresh:
  "distinct (map fst src) \<Longrightarrow> fst ` set src \<inter> fst ` set dst = {} \<Longrightarrow>
   merge_fields n dst src = (dst @ fst (clone_fields n src), snd (clone_fields n src))"
proof (induction src arbitrary: n dst)
  case Nil
  then show ?case by simp
next
  case (Cons kv src)
  obtain k v where kv: "kv = (k, v)" by (cases kv)
  obtain v' n1 where c: "clone n v = (v', n1)" by (cases "clone n v")
  have absent: "k \<notin> fst ` set dst" using Cons.prems kv by auto
  have dm: "deepMerge n (getprop dst k) v = (v', n1)"
    using c by (simp add: getprop_absent[OF absent])
  have "merge_fields n1 (dst @ [(k, v')]) src =
          ((dst @ [(k, v')]) @ fst (clone_fields n1 src), snd (clone_fields n1 src))"
    using Cons.prems kv by (intro Cons.IH) auto
  then show ?case
    using kv c dm absent by (simp add: update_absent split: prod.splits)
qed


lemma addrs_fields_update:
  "set (addrs_fields (AList.update k v m)) \<subseteq> set (addrs v) \<union> set (addrs_fields m)"
  by (induction m) auto

lemma deepMerge_bounds:
  "deepMerge n x y = (v', n') \<Longrightarrow> n \<le> n' \<and> (\<forall>a\<in>set (addrs v'). n \<le> a \<and> a < n')"
  "merge_fields n dst src = (fs, n') \<Longrightarrow> lo \<le> n \<Longrightarrow>
     (\<forall>a\<in>set (addrs_fields dst). lo \<le> a \<and> a < n) \<Longrightarrow>
     n \<le> n' \<and> (\<forall>a\<in>set (addrs_fields fs). lo \<le> a \<and> a < n')"
proof (induction n x y and n dst src arbitrary: v' n' and fs n' lo rule: deepMerge_merge_fields.induct)
  case (1 n a fa b fb)
  obtain dst n1 where c: "clone_fields (Suc n) fa = (dst, n1)" by (cases "clone_fields (Suc n) fa")
  obtain fs n2 where m: "merge_fields n1 dst fb = (fs, n2)" by (cases "merge_fields n1 dst fb")
  from clone_bounds(2)[OF c] have b1: "Suc n \<le> n1" "\<forall>a\<in>set (addrs_fields dst). Suc n \<le> a \<and> a < n1"
    by auto
  from "1.IH"[OF c[symmetric] m b1] have "n1 \<le> n2" "\<forall>a\<in>set (addrs_fields fs). Suc n \<le> a \<and> a < n2"
    by auto
  with b1 "1.prems" c m show ?case by (fastforce dest: Suc_leD)
next
  case (4 n dst kv src)
  obtain v1 n1 where d: "deepMerge n (getprop dst (fst kv)) (snd kv) = (v1, n1)"
    by (cases "deepMerge n (getprop dst (fst kv)) (snd kv)")
  from "4.IH"(1)[OF d] have b1: "n \<le> n1" "\<forall>a\<in>set (addrs v1). n \<le> a \<and> a < n1" by auto
  have m: "merge_fields n1 (AList.update (fst kv) v1 dst) src = (fs, n')"
    using "4.prems"(1) d by simp
  have b2: "\<forall>a\<in>set (addrs_fields (AList.update (fst kv) v1 dst)). lo \<le> a \<and> a < n1"
    using addrs_fields_update[of "fst kv" v1 dst] b1 "4.prems"(2,3) by fastforce
  from "4.IH"(2)[OF d[symmetric] m _ b2] b1 "4.prems"(2) show ?case by auto
qed (auto dest: clone_bounds)


lemma merge_fields_other:
  "k \<notin> fst ` set src \<Longrightarrow> getprop (fst (merge_fields n dst src)) k = getprop dst k"
  by (induction src arbitrary: n dst) (auto split: prod.splits simp: getprop_update)

lemma getprop_clone_fields:
  "erase (getprop (fst (clone_fields n fs)) k) = erase (getprop fs k)"
proof (induction fs arbitrary: n)
  case Nil
  then show ?case by simp
next
  case (Cons kv fs)
  obtain v' n1 where c: "clone n (snd kv) = (v', n1)" by (cases "clone n (snd kv)")
  obtain fs' n2 where cf: "clone_fields n1 fs = (fs', n2)" by (cases "clone_fields n1 fs")
  have "erase v' = erase (snd kv)" using erase_clone(1)[of n "snd kv"] c by simp
  moreover have "erase (getprop fs' k) = erase (getprop fs k)"
    using Cons.IH[of n1] cf by simp
  ultimately show ?case using c cf by (cases kv) (simp add: getprop_Cons)
qed

lemma distinct_merge_fields:
  "distinct (map fst dst) \<Longrightarrow> distinct (map fst (fst (merge_fields n dst src)))"
  by (induction src arbitrary: n dst) (auto split: prod.splits simp: distinct_update)

lemma fold_update_distinct:
  "distinct (map fst (t @ m)) \<Longrightarrow>
   fold (\<lambda>kv t. AList.update (fst kv) (snd kv) t) m t = t @ m"
proof (induction m arbitrary: t)
  case Nil
  then show ?case by simp
next
  case (Cons kv m)
  have "fst kv \<notin> fst ` set t" using Cons.prems by auto
  then have "AList.update (fst kv) (snd kv) t = t @ [kv]" by (simp add: update_absent)
  moreover have "distinct (map fst ((t @ [kv]) @ m))" using Cons.prems by simp
  ultimately show ?case using Cons.IH[of "t @ [kv]"] by simp
qed

lemma obj_assign_distinct: "distinct (map fst m) \<Longrightarrow> obj_assign [] m = m"
  using fold_update_distinct[of "[]" m] by (simp add: obj_assign_def)

lemma deepMerge_empty:
  "distinct (map fst m) \<Longrightarrow> deepMerge n (JObj a []) (JObj r m) = clone n (JObj r m)"
  by (simp add: merge_fields_fresh split: prod.splits)

lemma fresh_base_store: "a \<in> set (addrs (settings_val s)) \<Longrightarrow> a < fresh_base s args"
proof -
  assume "a \<in> set (addrs (settings_val s))"
  then have "Suc a \<in> set (map Suc (addrs (settings_val s) @ concat (map addrs args)))" by simp
  from fold_max_mem[OF this] show ?thesis unfolding fresh_base_def by (simp add: Suc_le_eq)
qed

lemma fresh_base_arg:
  "v \<in> set args \<Longrightarrow> a \<in> set (addrs v) \<Longrightarrow> a < fresh_base s args"
proof -
  assume "v \<in> set args" "a \<in> set (addrs v)"
  then have "Suc a \<in> set (map Suc (addrs (settings_val s) @ concat (map addrs args)))" by auto
  from fold_max_mem[OF this] show ?thesis unfolding fresh_base_def by (simp add: Suc_le_eq)
qed

lemma clone_deep_copy:
  assumes "clone n v = (c, n')" and "\<forall>a\<in>set (addrs v). a < n"
  shows "deep_copy_of c v"
proof -
  have "erase c = erase v" using erase_clone(1)[of n v] assms(1) by simp
  moreover have "\<forall>a\<in>set (addrs c). n \<le> a" using clone_bounds(1)[OF assms(1)] by simp
  ultimately show ?thesis using assms(2) by (fastforce simp: deep_copy_of_def)
qed

lemma set_string:
  assumes "wf_settings s"
  shows "PluginSettings_set co s (JStr key) v =
    (if loose_eq co (getprop (settings_map s) key) v then (s, [])
     else (case clone (Suc (fresh_base s [JStr key, v])) (settings_val s) of (old, n1) \<Rightarrow>
        (s\<lparr> settings_map := AList.update key v (settings_map s), next_addr := Suc n1 \<rparr>,
         [Change (JObj n1 (AList.update key v (settings_map s))) old])))"
proof -
  have d: "distinct (map fst (AList.update key v (settings_map s)))"
    using assms by (simp add: wf_settings_def distinct_update)
  have "deepMerge (Suc (fresh_base s [JStr key, v])) (JObj (fresh_base s [JStr key, v]) []) (settings_val s)
        = clone (Suc (fresh_base s [JStr key, v])) (settings_val s)"
    using assms unfolding settings_val_def wf_settings_def by (rule deepMerge_empty)
  then show ?thesis
    by (simp add: PluginSettings_set_def Let_def obj_assign_distinct[OF d] split: prod.splits)
qed

lemma set_object:
  assumes "wf_settings s"
  shows "PluginSettings_set co s (JObj b fb) v =
    (case clone (Suc (fresh_base s [JObj b fb, v])) (settings_val s) of (old, n1) \<Rightarrow>
       (case clone_fields (Suc n1) (settings_map s) of (dst, n1') \<Rightarrow>
          (case merge_fields n1' dst fb of (m, n2) \<Rightarrow>
             (s\<lparr> settings_ref := n1, settings_map := m, next_addr := Suc n2 \<rparr>,
              [Change (JObj n2 m) old]))))"
proof -
  have dm: "deepMerge (Suc (fresh_base s [JObj b fb, v])) (JObj (fresh_base s [JObj b fb, v]) []) (settings_val s)
        = clone (Suc (fresh_base s [JObj b fb, v])) (settings_val s)"
    using assms unfolding settings_val_def wf_settings_def by (rule deepMerge_empty)
  have d: "\<And>n dst n' m n2. clone_fields n (settings_map s) = (dst, n') \<Longrightarrow>
        merge_fields n' dst fb = (m, n2) \<Longrightarrow> obj_assign [] m = m"
  proof -
    fix n dst n' m n2
    assume c: "clone_fields n (settings_map s) = (dst, n')" and m: "merge_fields n' dst fb = (m, n2)"
    have "distinct (map fst dst)"
      using keys_clone_fields[of n "settings_map s"] c assms by (simp add: wf_settings_def)
    then have "distinct (map fst m)" using distinct_merge_fields[of dst n' fb] m by simp
    then show "obj_assign [] m = m" by (rule obj_assign_distinct)
  qed
  show ?thesis
    unfolding PluginSettings_set_def Let_def dm
    by (auto simp: settings_val_def d split: prod.splits)
qed


lemma wf_set: "wf_settings s \<Longrightarrow> wf_settings (fst (PluginSettings_set co s k v))"
proof (cases k)
  case (JStr key)
  assume "wf_settings s"
  then show ?thesis
    by (simp add: JStr set_string wf_settings_def distinct_update split: prod.splits)
next
  case (JObj b fb)
  assume wf: "wf_settings s"
  have "\<And>n dst n' m n2. clone_fields n (settings_map s) = (dst, n') \<Longrightarrow>
        merge_fields n' dst fb = (m, n2) \<Longrightarrow> distinct (map fst m)"
  proof -
    fix n dst n' m n2
    assume c: "clone_fields n (settings_map s) = (dst, n')" and m: "merge_fields n' dst fb = (m, n2)"
    have "distinct (map fst dst)"
      using keys_clone_fields[of n "settings_map s"] c wf by (simp add: wf_settings_def)
    then show "distinct (map fst m)" using distinct_merge_fields[of dst n' fb] m by simp
  qed
  then show ?thesis
    by (auto simp: JObj set_object[OF wf] wf_settings_def split: prod.splits)
qed (simp_all add: PluginSettings_set_def Let_def split: prod.splits)

lemma wf_after_sets: "wf_settings s \<Longrightarrow> wf_settings (after_sets co s calls)"
  unfolding after_sets_def by (induction calls arbitrary: s) (simp_all add: wf_set)

lemma set_string_props:
  assumes wf: "wf_settings s" and r: "PluginSettings_set co s (JStr key) v = (s', evs)"
  shows "(evs \<noteq> [] \<longleftrightarrow> PluginSettings_get s' key \<noteq> PluginSettings_get s key)
       \<and> (\<forall>k'. k' \<noteq> key \<longrightarrow> PluginSettings_get s' k' = PluginSettings_get s k')
       \<and> (evs = [] \<or> (\<exists>new old. evs = [Change new old] \<and> deep_copy_of old (settings_val s)
              \<and> shallow_copy_of new (settings_val s')))"
proof (cases "loose_eq co (getprop (settings_map s) key) v")
  case True
  then show ?thesis using r by (simp add: set_string[OF wf])
next
  case False
  let ?n0 = "fresh_base s [JStr key, v]"
  obtain old n1 where c: "clone (Suc ?n0) (settings_val s) = (old, n1)"
    by (cases "clone (Suc ?n0) (settings_val s)")
  let ?m = "AList.update key v (settings_map s)"
  have s': "s' = s\<lparr> settings_map := ?m, next_addr := Suc n1 \<rparr>"
    and evs: "evs = [Change (JObj n1 ?m) old]"
    using r False c by (simp_all add: set_string[OF wf])
  have below: "\<forall>a\<in>set (addrs (settings_val s)). a < Suc ?n0"
    using fresh_base_store[of _ s "[JStr key, v]"] by (auto intro: less_SucI)
  have dc: "deep_copy_of old (settings_val s)" by (rule clone_deep_copy[OF c below])
  have n1: "Suc ?n0 \<le> n1" using clone_bounds(1)[OF c] by simp
  have "\<forall>a\<in>set (addrs v). a < ?n0" using fresh_base_arg[of v "[JStr key, v]" _ s] by simp
  moreover have "\<forall>a\<in>set (addrs_fields (settings_map s)). a < ?n0"
    using fresh_base_store[of _ s "[JStr key, v]"] by (simp add: settings_val_def)
  ultimately have "\<forall>a\<in>set (addrs_fields ?m). a < ?n0"
    using addrs_fields_update[of key v "settings_map s"] by blast
  moreover have "settings_ref s < ?n0"
    using fresh_base_store[of "settings_ref s" s "[JStr key, v]"] by (simp add: settings_val_def)
  ultimately have sc: "shallow_copy_of (JObj n1 ?m) (settings_val s')"
    using n1 by (fastforce simp: shallow_copy_of_def settings_val_def s')
  have diff: "v \<noteq> getprop (settings_map s) key" using False loose_eq_refl by metis
  show ?thesis
    using dc sc diff by (simp add: s' evs PluginSettings_get_def getprop_update)
qed

lemma set_object_props:
  assumes wf: "wf_settings s" and r: "PluginSettings_set co s (JObj b partial) v = (s', evs)"
  shows "(\<forall>k'. k' \<notin> fst ` set partial \<longrightarrow>
            erase (PluginSettings_get s' k') = erase (PluginSettings_get s k'))
       \<and> (\<exists>new old. evs = [Change new old] \<and> deep_copy_of old (settings_val s)
              \<and> shallow_copy_of new (settings_val s'))"
proof -
  let ?n0 = "fresh_base s [JObj b partial, v]"
  obtain old n1 where c: "clone (Suc ?n0) (settings_val s) = (old, n1)"
    by (cases "clone (Suc ?n0) (settings_val s)")
  obtain dst n1' where cf: "clone_fields (Suc n1) (settings_map s) = (dst, n1')"
    by (cases "clone_fields (Suc n1) (settings_map s)")
  obtain m n2 where mf: "merge_fields n1' dst partial = (m, n2)"
    by (cases "merge_fields n1' dst partial")
  have s': "s' = s\<lparr> settings_ref := n1, settings_map := m, next_addr := Suc n2 \<rparr>"
    and evs: "evs = [Change (JObj n2 m) old]"
    using r c cf mf by (simp_all add: set_object[OF wf])
  have below: "\<forall>a\<in>set (addrs (settings_val s)). a < Suc ?n0"
    using fresh_base_store[of _ s "[JObj b partial, v]"] by (auto intro: less_SucI)
  have dc: "deep_copy_of old (settings_val s)" by (rule clone_deep_copy[OF c below])
  have b1: "Suc n1 \<le> n1'" "\<forall>a\<in>set (addrs_fields dst). Suc n1 \<le> a \<and> a < n1'"
    using clone_bounds(2)[OF cf] by auto
  have b2: "n1' \<le> n2" "\<forall>a\<in>set (addrs_fields m). Suc n1 \<le> a \<and> a < n2"
    using deepMerge_bounds(2)[OF mf b1] by auto
  have sc: "shallow_copy_of (JObj n2 m) (settings_val s')"
    using b1 b2 by (fastforce simp: shallow_copy_of_def settings_val_def s')
  have keep: "\<forall>k'. k' \<notin> fst ` set partial \<longrightarrow> erase (getprop m k') = erase (getprop (settings_map s) k')"
  proof (intro allI impI)
    fix k' assume "k' \<notin> fst ` set partial"
    then have "getprop m k' = getprop dst k'"
      using merge_fields_other[of k' partial n1' dst] mf by simp
    moreover have "erase (getprop dst k') = erase (getprop (settings_map s) k')"
      using getprop_clone_fields[of "Suc n1" "settings_map s" k'] cf by simp
    ultimately show "erase (getprop m k') = erase (getprop (settings_map s) k')" by simp
  qed
  show ?thesis using dc sc keep by (simp add: s' evs PluginSettings_get_def)
qed

lemma example_settings_eval:
  "example_settings = \<lparr> settings_ref = 2,
      settings_map = [(''disabled'', JBool False), (''theme'', JObj 1 [(''x'', JNum 1)])],
      schema = None, next_addr = 3 \<rparr>"
  by (simp add: example_settings_def PluginSettings_new_def obj_assign_def Let_def)

lemma example_set_eval:
  "PluginSettings_set (\<lambda>x y. False) example_settings (JStr ''b'') (JNum 1) =
     (\<lparr> settings_ref = 2,
        settings_map = [(''disabled'', JBool False), (''theme'', JObj 1 [(''x'', JNum 1)]), (''b'', JNum 1)],
        schema = None, next_addr = 7 \<rparr>,
      [Change (JObj 6 [(''disabled'', JBool False), (''theme'', JObj 1 [(''x'', JNum 1)]), (''b'', JNum 1)])
              (JObj 4 [(''disabled'', JBool False), (''theme'', JObj 5 [(''x'', JNum 1)])])])"
  by (simp add: example_settings_eval PluginSettings_set_def fresh_base_def settings_val_def
        getprop_def obj_assign_def Let_def)

lemma released_append: "released (xs @ ys) = released xs @ released ys"
  by (induction xs rule: released.induct) auto

lemma unregisterTheme_trace:
  "\<exists>es. trace (unregisterTheme pid eff c) = trace c @ es \<and> released es = []"
  by (auto simp: unregisterTheme_def emit_def saveUserPreferences_def Let_def split: option.splits)

lemma release_one_trace:
  "\<exists>es. trace (release_one env pid fn c) = trace c @ es \<and> released es = [fn]"
proof -
  obtain es where es: "trace (unregisterTheme pid True (emit [Release pid fn] c)) = trace (emit [Release pid fn] c) @ es"
     "released es = []"
    using unregisterTheme_trace by blast
  show ?thesis
    using es by (cases fn; cases "release_outcome env pid fn")
      (auto simp: release_one_def emit_def Let_def released_append)
qed

lemma run_releases_trace:
  "\<exists>es. trace (run_releases env pid fns c) = trace c @ es \<and> released es = fns"
proof (induction fns arbitrary: c)
  case Nil
  then show ?case by simp
next
  case (Cons fn fns)
  obtain es1 where e1: "trace (release_one env pid fn c) = trace c @ es1" "released es1 = [fn]"
    using release_one_trace by blast
  obtain es2 where e2: "trace (run_releases env pid fns (release_one env pid fn c)) =
      trace (release_one env pid fn c) @ es2" "released es2 = fns"
    using Cons.IH by blast
  show ?case using e1 e2 by (auto simp: released_append intro!: exI[of _ "es1 @ es2"])
qed

lemma disposes_fold_push:
  "disposes (fold push_dispose fns u) = disposes u @ map the (filter (\<lambda>f. f \<noteq> None) fns)"
  by (induction fns arbitrary: u) (auto simp: push_dispose_def split: option.splits)

lemma plugin_id_fold_push: "plugin_id (fold push_dispose fns u) = plugin_id u"
  by (induction fns arbitrary: u) (auto simp: push_dispose_def split: option.splits)

lemma unit_events_append: "unit_events (xs @ ys) = unit_events xs @ unit_events ys"
  by (induction xs rule: unit_events.induct) auto

lemma core_events_append: "core_events (xs @ ys) = core_events xs @ core_events ys"
  by (induction xs rule: core_events.induct) auto

lemma unregisterTheme_units:
  "\<exists>es. trace (unregisterTheme pid eff c) = trace c @ es \<and> unit_events es = []"
  by (auto simp: unregisterTheme_def emit_def saveUserPreferences_def Let_def split: option.splits)

lemma release_one_units:
  "\<exists>es. trace (release_one env pid fn c) = trace c @ es \<and> unit_events es = []"
proof -
  obtain es where es: "trace (unregisterTheme pid True (emit [Release pid fn] c)) = trace (emit [Release pid fn] c) @ es"
     "unit_events es = []"
    using unregisterTheme_units by blast
  show ?thesis
    using es by (cases fn; cases "release_outcome env pid fn")
      (auto simp: release_one_def emit_def Let_def unit_events_append)
qed

lemma run_releases_units:
  "\<exists>es. trace (run_releases env pid fns c) = trace c @ es \<and> unit_events es = []"
proof (induction fns arbitrary: c)
  case Nil
  then show ?case by simp
next
  case (Cons fn fns)
  obtain es1 where e1: "trace (release_one env pid fn c) = trace c @ es1" "unit_events es1 = []"
    using release_one_units by blast
  obtain es2 where e2: "trace (run_releases env pid fns (release_one env pid fn c)) =
      trace (release_one env pid fn c) @ es2" "unit_events es2 = []"
    using Cons.IH by blast
  show ?case using e1 e2 by (auto simp: unit_events_append intro!: exI[of _ "es1 @ es2"])
qed

lemma before_unload_units:
  "before_unload env c u = (x, c') \<Longrightarrow>
     \<exists>es. trace c' = trace c @ es \<and> filter (\<lambda>x. snd x = Unloaded) (unit_events es) = []"
  by (auto simp: before_unload_def log_error_def emit_def Let_def split: option.splits if_splits)

lemma before_unload_logged:
  assumes "\<And>e. caller u \<Longrightarrow> await_before_unload env (plugin_id u) = Some e \<Longrightarrow>
             logger_error env ''beforeunload'' (Foreign e) = None"
    and "\<And>e. unit_listener env (plugin_id u) BeforeUnload = Some e \<Longrightarrow>
             logger_error env ''beforeunload'' (Foreign e) = None"
  shows "fst (before_unload env c u) = None"
  using assms
  by (auto simp: before_unload_def log_error_def Let_def split: option.splits if_splits)

text \<open>When the logger logs whatever the steps of \<^verbatim>\<open>unload\<close> throw, \<^verbatim>\<open>unload(false)\<close>
  returns, emits \<^verbatim>\<open>unloaded\<close> once and ends with the status \<^verbatim>\<open>unloaded\<close>, whatever
  the release actions do.\<close>

lemma unload_plain_logged:
  assumes bu1: "\<And>e. caller u \<Longrightarrow> await_before_unload env (plugin_id u) = Some e \<Longrightarrow>
             logger_error env ''beforeunload'' (Foreign e) = None"
    and bu2: "\<And>e. unit_listener env (plugin_id u) BeforeUnload = Some e \<Longrightarrow>
             logger_error env ''beforeunload'' (Foreign e) = None"
    and ul: "\<And>e. unit_listener env (plugin_id u) Unloaded = Some e \<Longrightarrow>
             logger_error env ''unload'' (Foreign e) = None"
  shows "\<exists>c' u' es. unload_plain env c u = (None, c', u') \<and> status u' = UNLOADED \<and>
     trace c' = trace c @ es \<and>
     filter (\<lambda>x. snd x = Unloaded) (unit_events es) = [(plugin_id u, Unloaded)]"
proof (cases "loaded u")
  case False
  then show ?thesis
    using ul
    by (cases "unit_listener env (plugin_id u) Unloaded")
       (auto simp: unload_plain_def unload_try_def log_error_def emit_def)
next
  case True
  let ?u = "u\<lparr> status := UNLOADING \<rparr>"
  obtain x c1 where b: "before_unload env c ?u = (x, c1)" by (cases "before_unload env c ?u")
  have "fst (before_unload env c ?u) = None"
    using before_unload_logged[of ?u env c] bu1 bu2 by simp
  then have x: "x = None" using b by simp
  obtain es1 where e1: "trace c1 = trace c @ es1"
      "filter (\<lambda>x. snd x = Unloaded) (unit_events es1) = []"
    using before_unload_units[OF b] by blast
  obtain es2 where e2: "trace (run_releases env (plugin_id u) (disposes u) c1) = trace c1 @ es2"
      "unit_events es2 = []"
    using run_releases_units by blast
  show ?thesis
    using True e1 e2 ul unfolding unload_plain_def unload_try_def b x
    by (cases "unit_listener env (plugin_id u) Unloaded")
       (auto simp: dispose_def log_error_def emit_def unit_events_append)
qed

lemma grows_refl: "grows c c"
  by (simp add: grows_def same_registry_def)

lemma grows_trans: "grows a b \<Longrightarrow> grows b c \<Longrightarrow> grows a c"
  by (auto simp: grows_def same_registry_def core_events_append)

lemma grows_emit: "list_all theme_event (core_events es) \<Longrightarrow> grows c (emit es c)"
  by (auto simp: grows_def same_registry_def emit_def)

lemma grows_emit_after:
  "grows c c' \<Longrightarrow> list_all theme_event (core_events es) \<Longrightarrow> grows c (emit es c')"
  using grows_trans grows_emit by blast


lemma unregisterTheme_grows: "grows c (unregisterTheme pid eff c)"
  by (auto simp: unregisterTheme_def saveUserPreferences_def grows_def same_registry_def emit_def
      Let_def split: option.splits)


lemma release_one_grows: "grows c (release_one env pid fn c)"
proof -
  have a: "grows c (emit [Release pid fn] c)" by (simp add: grows_emit)
  have b: "grows c (unregisterTheme pid True (emit [Release pid fn] c))"
    using a unregisterTheme_grows grows_trans by blast
  show ?thesis
    using a b
    by (cases fn; cases "release_outcome env pid fn")
       (auto simp: release_one_def Let_def intro: grows_emit_after)
qed

lemma run_releases_grows: "grows c (run_releases env pid fns c)"
proof (induction fns arbitrary: c)
  case Nil
  show ?case by (simp add: grows_refl)
next
  case (Cons fn fns)
  show ?case using release_one_grows Cons.IH grows_trans by (simp, blast)
qed





lemma start_dispose_grows: "start_dispose env c u = (c1, u1) \<Longrightarrow> grows c c1"
  by (auto simp: start_dispose_def Let_def run_releases_grows)









lemma start_dispose_identity: "start_dispose env c u = (c1, u1) \<Longrightarrow> keeps_identity u u1"
  by (auto simp: start_dispose_def Let_def keeps_identity_def split: if_splits)








lemma start_dispose_unit:
  "snd (start_dispose env c u) =
     (if length (disposes u) < Suc (dispose_progress env (plugin_id u))
      then u\<lparr> disposes := [], disposing := None \<rparr>
      else u\<lparr> disposing := Some (drop (Suc (dispose_progress env (plugin_id u))) (disposes u)) \<rparr>)"
  by (simp add: start_dispose_def Let_def)

lemma start_dispose_core:
  "fst (start_dispose env c u) =
     run_releases env (plugin_id u) (take (Suc (dispose_progress env (plugin_id u))) (disposes u)) c"
  by (simp add: start_dispose_def Let_def)

lemma start_dispose_disabled: "disabled (snd (start_dispose env c u)) = disabled u"
  by (simp add: start_dispose_unit disabled_def)

lemma load_unfold:
  assumes "\<not> pending u"
    and "load_try env opts c (u\<lparr> status := LOADING, loadErr := None \<rparr>) = (r, c1, u1)"
  shows "load env opts c u =
     (case r of
        None \<Rightarrow>
          (None, c1,
           if no_loadErr u1
           then u1\<lparr> status := (if truthy (disabled u1) then UNLOADED else LOADED) \<rparr>
           else u1)
      | Some (st, e) \<Rightarrow>
          (case logger_error env ''load'' e of
             Some x \<Rightarrow>
               (Some x, c1,
                if no_loadErr u1
                then u1\<lparr> status := (if truthy (disabled u1) then UNLOADED else LOADED) \<rparr>
                else u1)
           | None \<Rightarrow>
               (None, fst (start_dispose env (emit [LogError ''load'' e] c1) u1),
                if truthy_thrown e
                then (snd (start_dispose env (emit [LogError ''load'' e] c1) u1))
                       \<lparr> status := ERROR, loadErr := Some e \<rparr>
                else (snd (start_dispose env (emit [LogError ''load'' e] c1) u1))
                       \<lparr> loadErr := Some e,
                         status := (if truthy (disabled u1) then UNLOADED else LOADED) \<rparr>)))"
proof (cases r)
  case None
  then show ?thesis unfolding load_def assms(2) prod.case using assms(1) by simp
next
  case (Some se)
  obtain st e where se: "se = (st, e)" by (cases se)
  show ?thesis
  proof (cases "logger_error env ''load'' e")
    case (Some x)
    then show ?thesis
      unfolding load_def assms(2) prod.case \<open>r = Some se\<close> se using assms(1)
      by (simp add: log_error_def)
  next
    case None
    obtain c3 u3 where sd: "start_dispose env (emit [LogError ''load'' e] c1) u1 = (c3, u3)"
      by (cases "start_dispose env (emit [LogError ''load'' e] c1) u1")
    have d: "disabled u3 = disabled u1"
      using start_dispose_disabled[of env "emit [LogError ''load'' e] c1" u1] sd by simp
    show ?thesis
      unfolding load_def assms(2) prod.case \<open>r = Some se\<close> se using assms(1) None
      by (simp add: log_error_def sd no_loadErr_def disabled_def d[unfolded disabled_def])
  qed
qed











lemma emit_trace [simp]: "trace (emit es c) = trace c @ es"
  by (simp add: emit_def)

lemma emit_fields [simp]:
  "isRegistering (emit es c) = isRegistering c"
  "dotConfigRoot (emit es c) = dotConfigRoot c"
  "registeredPlugins (emit es c) = registeredPlugins c"
  by (simp_all add: emit_def)

















lemma wrap_illegal_truthy: "truthy_thrown (wrap_illegal env f)"
  by (cases f) (auto simp: wrap_illegal_def split: jsval.splits)

lemma resolve_package_truthy: "resolve_package env c u = (Inl e, c1, u1) \<Longrightarrow> truthy_thrown e"
  by (auto simp: resolve_package_def Let_def wrap_illegal_truthy
      split: if_splits sum.splits option.splits)

lemma preparePackageConfigs_truthy:
  "preparePackageConfigs env c u = (Inl e, c1, u1) \<Longrightarrow> truthy_thrown e"
  by (auto simp: preparePackageConfigs_def split: prod.splits sum.splits if_splits
      dest: resolve_package_truthy)

lemma load_try_package_truthy:
  assumes "load_try env opts c u = (Some (PackageResolution, e), c1, u1)"
  shows "truthy_thrown e"
proof -
  obtain rp c0 u0 where prep: "preparePackageConfigs env c u = (rp, c0, u0)"
    by (cases "preparePackageConfigs env c u")
  show ?thesis
  proof (cases rp)
    case (Inl e')
    have "e' = e" using assms unfolding load_try_def prep Inl prod.case sum.case by simp
    then show ?thesis using preparePackageConfigs_truthy prep Inl by simp
  next
    case (Inr themes)
    have "False"
      using assms unfolding load_try_def prep Inr prod.case sum.case
      by (auto split: prod.splits if_splits option.splits sum.splits)
    then show ?thesis ..
  qed
qed

section \<open>The claims\<close>

subsection \<open>Registration of a batch\<close>




text \<open>
  A load that is rejected ends the loop: when the sandbox connection of the first
  unit is rejected with \<^verbatim>\<open>undefined\<close>, on which the logger fails, the second
  descriptor is never loaded; no unit is registered and no \<^verbatim>\<open>error\<close> event is emitted.
\<close>

lemma register_stops_on_rejection:
  "fst (register_loop (demo_env\<lparr> connectToChild := (\<lambda>pid. Some (Thrown JUndefined)) \<rparr>) 0
          [url_descriptor ''/ext/demo'', url_descriptor ''/ext/copy'']
          ([], demo_core\<lparr> isRegistering := True \<rparr>))
     = Some (JsError ''TypeError'')
   \<and> core_events (trace (register (demo_env\<lparr> connectToChild := (\<lambda>pid. Some (Thrown JUndefined)) \<rparr>)
                            [url_descriptor ''/ext/demo'', url_descriptor ''/ext/copy''] False
                            demo_core))
     = [EvReady]
   \<and> registeredPlugins (register (demo_env\<lparr> connectToChild := (\<lambda>pid. Some (Thrown JUndefined)) \<rparr>)
                           [url_descriptor ''/ext/demo'', url_descriptor ''/ext/copy''] False
                           demo_core)
     = []"
  by code_simp

subsection \<open>The lifecycle of a unit\<close>

text \<open>
  Claim C2. For a unit whose status is \<^verbatim>\<open>loading\<close> or \<^verbatim>\<open>unloading\<close>, every call of
  \<^verbatim>\<open>load\<close>, \<^verbatim>\<open>unload\<close> or \<^verbatim>\<open>reload\<close> returns at once: the unit and the
  orchestrator are unchanged, and nothing is added to the trace (no event, no release
  action, no message to the sandbox).
\<close>

theorem pending_is_noop:
  assumes "pending u"
  shows "load env opts c u = (None, c, u) \<and> unload env unregister c u = (None, c, u)
       \<and> reload env c u = (None, c, u)"
  using assms by (simp add: load_def unload_def reload_def)

theorem pending_is_noop_witness:
  "pending (demo_unit\<lparr> status := UNLOADING \<rparr>)
   \<and> load demo_env plain_load demo_core (demo_unit\<lparr> status := UNLOADING \<rparr>)
        = (None, demo_core, demo_unit\<lparr> status := UNLOADING \<rparr>)
   \<and> unload demo_env False demo_core (demo_unit\<lparr> status := UNLOADING \<rparr>)
        = (None, demo_core, demo_unit\<lparr> status := UNLOADING \<rparr>)
   \<and> reload demo_env demo_core (demo_unit\<lparr> status := UNLOADING \<rparr>)
        = (None, demo_core, demo_unit\<lparr> status := UNLOADING \<rparr>)"
proof -
  have h: "pending (demo_unit\<lparr> status := UNLOADING \<rparr>)" by code_simp
  from h pending_is_noop[OF h] show ?thesis by (rule conjI)
qed

text \<open>
  Claim C3, as amended. Let the try block of \<^verbatim>\<open>load\<close> throw a value \<open>e\<close> that the
  logger logs: any such value thrown in the package resolution, or a truthy one (an
  error object is truthy) thrown in a later step. Then \<^verbatim>\<open>load\<close> returns normally with
  the status \<^verbatim>\<open>error\<close> and \<open>e\<close> in \<^verbatim>\<open>loadErr\<close>; the value is logged and the
  disposal of the stack is started, not awaited: when \<^verbatim>\<open>load\<close> returns, the first
  release actions of the stack have been invoked, in order, as many as the disposal has
  run steps; the remaining steps of the disposal invoke the other actions in order and
  empty the stack. A failure of the settings load is caught inside
  \<^verbatim>\<open>_setupUserSettings\<close>: once its logger has logged it, the load goes on and the
  failure is not recorded.
\<close>

theorem load_records_failure:
  assumes "\<not> pending u"
    and "load_try env opts c (u\<lparr> status := LOADING, loadErr := None \<rparr>) = (Some (st, e), c1, u1)"
    and "st = PackageResolution \<or> truthy_thrown e"
    and "logger_error env ''load'' e = None"
  shows "\<exists>c' u' es.
      load env opts c u = (None, c', u')
    \<and> status u' = ERROR \<and> loadErr u' = Some e
    \<and> trace c' = trace c1 @ LogError ''load'' e # es
    \<and> released es = take (Suc (dispose_progress env (plugin_id u1))) (disposes u1)
    \<and> disposes u' = (if length (disposes u1) \<le> dispose_progress env (plugin_id u1)
                     then [] else disposes u1)
    \<and> (\<exists>c'' es'.
          settle env c' u'
            = (c'', u1\<lparr> disposes := [], disposing := None, status := ERROR, loadErr := Some e \<rparr>)
        \<and> trace c'' = trace c' @ es'
        \<and> released es @ released es' = disposes u1)"
proof -
  let ?n = "Suc (dispose_progress env (plugin_id u1))"
  let ?c2 = "emit [LogError ''load'' e] c1"
  let ?c3 = "run_releases env (plugin_id u1) (take ?n (disposes u1)) ?c2"
  let ?u3 = "snd (start_dispose env ?c2 u1)"
  let ?u' = "?u3\<lparr> status := ERROR, loadErr := Some e \<rparr>"
  have tr: "truthy_thrown e" using assms(2,3) load_try_package_truthy by blast
  have l: "load env opts c u = (None, ?c3, ?u')"
    unfolding load_unfold[OF assms(1,2)] using tr assms(4) by (simp add: start_dispose_core)
  obtain es where es: "trace ?c3 = trace ?c2 @ es" "released es = take ?n (disposes u1)"
    using run_releases_trace by blast
  obtain es' where es':
    "trace (run_releases env (plugin_id u1) (drop ?n (disposes u1)) ?c3) = trace ?c3 @ es'"
    "released es' = drop ?n (disposes u1)"
    using run_releases_trace by blast
  have st: "\<exists>c'' es'. settle env ?c3 ?u'
            = (c'', u1\<lparr> disposes := [], disposing := None, status := ERROR, loadErr := Some e \<rparr>)
        \<and> trace c'' = trace ?c3 @ es' \<and> released es @ released es' = disposes u1"
  proof (cases "length (disposes u1) < ?n")
    case True
    then have "settle env ?c3 ?u'
        = (?c3, u1\<lparr> disposes := [], disposing := None, status := ERROR, loadErr := Some e \<rparr>)"
      by (simp add: settle_def start_dispose_unit)
    moreover have "released es @ released [] = disposes u1" using True es(2) by simp
    ultimately show ?thesis by (intro exI[of _ ?c3] exI[of _ "[]"]) simp
  next
    case False
    then have "settle env ?c3 ?u'
        = (run_releases env (plugin_id u1) (drop ?n (disposes u1)) ?c3,
           u1\<lparr> disposes := [], disposing := None, status := ERROR, loadErr := Some e \<rparr>)"
      by (simp add: settle_def start_dispose_unit)
    moreover have "released es @ released es' = disposes u1" using es(2) es'(2) by simp
    ultimately show ?thesis using es'(1) by blast
  qed
  have "status ?u' = ERROR" "loadErr ?u' = Some e" by simp_all
  moreover have "disposes ?u' = (if length (disposes u1) \<le> dispose_progress env (plugin_id u1)
                     then [] else disposes u1)"
    by (auto simp: start_dispose_unit)
  moreover have "trace ?c3 = trace c1 @ LogError ''load'' e # es" using es(1) by simp
  ultimately show ?thesis using l es(2) st by blast
qed

text \<open>
  The theorem at work: a loaded unit is loaded again and the sandbox connection fails.
\<close>

theorem load_records_failure_witness:
  "\<not> pending unit_loaded
   \<and> load_try env_connect_fails plain_load core_loaded (unit_loaded\<lparr> status := LOADING, loadErr := None \<rparr>)
       = (Some (SandboxConnection, Foreign (JsError ''handshake Timeout'')),
          fst (snd (load_try env_connect_fails plain_load core_loaded
                      (unit_loaded\<lparr> status := LOADING, loadErr := None \<rparr>))),
          snd (snd (load_try env_connect_fails plain_load core_loaded
                      (unit_loaded\<lparr> status := LOADING, loadErr := None \<rparr>))))
   \<and> (SandboxConnection = PackageResolution \<or> truthy_thrown (Foreign (JsError ''handshake Timeout'')))
   \<and> logger_error env_connect_fails ''load'' (Foreign (JsError ''handshake Timeout'')) = None
   \<and> (\<exists>c' u' es.
        load env_connect_fails plain_load core_loaded unit_loaded = (None, c', u')
      \<and> status u' = ERROR \<and> loadErr u' = Some (Foreign (JsError ''handshake Timeout''))
      \<and> trace c' = trace (fst (snd (load_try env_connect_fails plain_load core_loaded
                      (unit_loaded\<lparr> status := LOADING, loadErr := None \<rparr>))))
                 @ LogError ''load'' (Foreign (JsError ''handshake Timeout'')) # es
      \<and> released es
          = take (Suc (dispose_progress env_connect_fails
                         (plugin_id (snd (snd (load_try env_connect_fails plain_load core_loaded
                            (unit_loaded\<lparr> status := LOADING, loadErr := None \<rparr>)))))))
              (disposes (snd (snd (load_try env_connect_fails plain_load core_loaded
                            (unit_loaded\<lparr> status := LOADING, loadErr := None \<rparr>)))))
      \<and> disposes u'
          = (if length (disposes (snd (snd (load_try env_connect_fails plain_load core_loaded
                            (unit_loaded\<lparr> status := LOADING, loadErr := None \<rparr>)))))
                  \<le> dispose_progress env_connect_fails (plugin_id (snd (snd (load_try env_connect_fails plain_load core_loaded
                            (unit_loaded\<lparr> status := LOADING, loadErr := None \<rparr>)))))
             then [] else disposes (snd (snd (load_try env_connect_fails plain_load core_loaded
                            (unit_loaded\<lparr> status := LOADING, loadErr := None \<rparr>)))))
      \<and> (\<exists>c'' es'.
            settle env_connect_fails c' u'
              = (c'', (snd (snd (load_try env_connect_fails plain_load core_loaded
                            (unit_loaded\<lparr> status := LOADING, loadErr := None \<rparr>))))
                       \<lparr> disposes := [], disposing := None, status := ERROR,
                         loadErr := Some (Foreign (JsError ''handshake Timeout'')) \<rparr>)
          \<and> trace c'' = trace c' @ es'
          \<and> released es @ released es'
              = disposes (snd (snd (load_try env_connect_fails plain_load core_loaded
                            (unit_loaded\<lparr> status := LOADING, loadErr := None \<rparr>))))))"
proof -
  have h1: "\<not> pending unit_loaded" by code_simp
  have f: "fst (load_try env_connect_fails plain_load core_loaded (unit_loaded\<lparr> status := LOADING, loadErr := None \<rparr>))
       = Some (SandboxConnection, Foreign (JsError ''handshake Timeout''))"
    by code_simp
  have h2: "load_try env_connect_fails plain_load core_loaded (unit_loaded\<lparr> status := LOADING, loadErr := None \<rparr>)
       = (Some (SandboxConnection, Foreign (JsError ''handshake Timeout'')),
          fst (snd (load_try env_connect_fails plain_load core_loaded
                      (unit_loaded\<lparr> status := LOADING, loadErr := None \<rparr>))),
          snd (snd (load_try env_connect_fails plain_load core_loaded
                      (unit_loaded\<lparr> status := LOADING, loadErr := None \<rparr>))))"
    using f by (metis prod.collapse)
  have h3: "SandboxConnection = PackageResolution \<or> truthy_thrown (Foreign (JsError ''handshake Timeout''))"
    by simp
  have h4: "logger_error env_connect_fails ''load'' (Foreign (JsError ''handshake Timeout'')) = None"
    by code_simp
  from load_records_failure[OF h1 h2 h3 h4] h1 h2 h3 h4 show ?thesis by blast
qed

text \<open>
  In that run the disposal has run two steps when \<^verbatim>\<open>load\<close> returns: two of the
  three release actions have been invoked, and the stack still holds the three.
\<close>

lemma load_disposal_pending:
  "fst (load env_connect_fails plain_load core_loaded unit_loaded) = None
   \<and> status (snd (snd (load env_connect_fails plain_load core_loaded unit_loaded))) = ERROR
   \<and> released (drop (length (trace core_loaded))
        (trace (fst (snd (load env_connect_fails plain_load core_loaded unit_loaded)))))
       = [SettingsDisposer, DestroyCaller]
   \<and> disposes (snd (snd (load env_connect_fails plain_load core_loaded unit_loaded)))
       = [SettingsDisposer, DestroyCaller, CleanInjectedScripts]
   \<and> disposing (snd (snd (load env_connect_fails plain_load core_loaded unit_loaded)))
       = Some [CleanInjectedScripts]"
  by code_simp

text \<open>
  Claim C3 as stated fails for the settings binding: when the host rejects the load of
  the user settings, the unit ends \<^verbatim>\<open>loaded\<close> with no \<^verbatim>\<open>loadErr\<close>.
\<close>

theorem load_settings_failure_not_recorded:
  "load_plugin_user_settings env_settings_fail ''demo-id'' = Inl (JsError ''EACCES'')
   \<and> fst (load env_settings_fail plain_load demo_core demo_unit) = None
   \<and> status (snd (snd (load env_settings_fail plain_load demo_core demo_unit))) = LOADED
   \<and> loadErr (snd (snd (load env_settings_fail plain_load demo_core demo_unit))) = None"
  by code_simp

text \<open>
  When the logger fails on the thrown value, here \<^verbatim>\<open>null\<close>, the catch clause ends
  at its first statement: \<^verbatim>\<open>load\<close> rejects with what the logger throws, and the
  finally clause sets the status \<^verbatim>\<open>loaded\<close> with no \<^verbatim>\<open>loadErr\<close>.
\<close>

lemma load_rejects_on_null:
  "fst (load_try (demo_env\<lparr> connectToChild := (\<lambda>pid. Some (Thrown JNull)) \<rparr>) plain_load demo_core
          (demo_unit\<lparr> status := LOADING, loadErr := None \<rparr>))
     = Some (SandboxConnection, Foreign (Thrown JNull))
   \<and> fst (load (demo_env\<lparr> connectToChild := (\<lambda>pid. Some (Thrown JNull)) \<rparr>) plain_load demo_core
            demo_unit) = Some (JsError ''TypeError'')
   \<and> status (snd (snd (load (demo_env\<lparr> connectToChild := (\<lambda>pid. Some (Thrown JNull)) \<rparr>)
                          plain_load demo_core demo_unit))) = LOADED
   \<and> loadErr (snd (snd (load (demo_env\<lparr> connectToChild := (\<lambda>pid. Some (Thrown JNull)) \<rparr>)
                           plain_load demo_core demo_unit))) = None"
  by code_simp

text \<open>
  Claim C4 (the code departs from it). \<^verbatim>\<open>unload\<close> wraps its steps in try blocks, but
  the catch clauses call the logger unguarded. With a logger that fails on \<^verbatim>\<open>null\<close>,
  a listener of \<^verbatim>\<open>unloaded\<close> that throws \<^verbatim>\<open>null\<close> makes \<^verbatim>\<open>unload(false)\<close> reject
  with what the logger throws; and a before-unload message rejected with \<^verbatim>\<open>null\<close>
  makes the inner catch clause throw, so that \<^verbatim>\<open>unload(false)\<close> returns without
  having run the disposal stack or emitted \<^verbatim>\<open>unloaded\<close>.
\<close>

theorem unload_rejects_on_null:
  "status unit_loaded = LOADED
   \<and> disposes unit_loaded = [SettingsDisposer, DestroyCaller, CleanInjectedScripts]
   \<and> unit_listener env_unload_throws (plugin_id unit_loaded) Unloaded = Some (Thrown JNull)
   \<and> fst (unload env_unload_throws False core_loaded unit_loaded) = Some (JsError ''TypeError'')
   \<and> status (snd (snd (unload env_unload_throws False core_loaded unit_loaded))) = UNLOADED
   \<and> await_before_unload env_before_unload_null (plugin_id unit_loaded) = Some (Thrown JNull)
   \<and> fst (unload env_before_unload_null False core_loaded unit_loaded) = None
   \<and> drop (length (trace core_loaded))
        (trace (fst (snd (unload env_before_unload_null False core_loaded unit_loaded))))
       = [CallUserModel ''demo-id'' LSPMSG_BEFORE_UNLOAD,
          LogError ''unload'' (Foreign (JsError ''TypeError''))]
   \<and> disposes (snd (snd (unload env_before_unload_null False core_loaded unit_loaded)))
       = [SettingsDisposer, DestroyCaller, CleanInjectedScripts]
   \<and> status (snd (snd (unload env_before_unload_null False core_loaded unit_loaded))) = UNLOADED"
  by code_simp

text \<open>
  Claim C5. Running the disposal stack invokes every release action pushed by
  \<^verbatim>\<open>_dispose\<close>, in the order of the pushes, whatever the actions throw, and leaves the
  stack empty.
\<close>

theorem dispose_runs_stack_in_order:
  "\<exists>es. trace (fst (dispose env c (fold push_dispose fns (u\<lparr> disposes := [] \<rparr>)))) = trace c @ es
      \<and> released es = map the (filter (\<lambda>f. f \<noteq> None) fns)
      \<and> disposes (snd (dispose env c (fold push_dispose fns (u\<lparr> disposes := [] \<rparr>)))) = []"
  using run_releases_trace[of env "plugin_id u" "map the (filter (\<lambda>f. f \<noteq> None) fns)" c]
  by (simp add: dispose_def disposes_fold_push plugin_id_fold_push)

subsection \<open>The settings store\<close>

text \<open>
  Claim C6, as amended. After any sequence of \<^verbatim>\<open>set\<close> calls on a well-formed store,
  a call \<^verbatim>\<open>set(k, v)\<close> with a string key emits \<^verbatim>\<open>change\<close> if and only if the
  resulting value of \<open>k\<close> differs from its value before the call, and every other
  key keeps its value; after an object-merge \<^verbatim>\<open>set\<close>, every key that the partial
  does not hold retains its prior value (as a copy of equal content). An emitted event
  carries \<open>(new, old)\<close>, where \<open>old\<close> is a full deep copy of the settings before
  the call, and \<open>new\<close> is a new object holding the very property values of the
  settings after the call: a shallow copy.
\<close>

theorem PluginSettings_set_change:
  assumes "wf_settings s0"
  shows "(let s = after_sets co s0 calls in
     (case PluginSettings_set co s (JStr key) v of (s', evs) \<Rightarrow>
         (evs \<noteq> [] \<longleftrightarrow> PluginSettings_get s' key \<noteq> PluginSettings_get s key)
       \<and> (\<forall>k'. k' \<noteq> key \<longrightarrow> PluginSettings_get s' k' = PluginSettings_get s k')
       \<and> (evs = [] \<or> (\<exists>new old. evs = [Change new old] \<and> deep_copy_of old (settings_val s)
              \<and> shallow_copy_of new (settings_val s'))))
   \<and> (case PluginSettings_set co s (JObj b partial) v of (s', evs) \<Rightarrow>
         (\<forall>k'. k' \<notin> fst ` set partial \<longrightarrow>
            erase (PluginSettings_get s' k') = erase (PluginSettings_get s k'))
       \<and> (\<exists>new old. evs = [Change new old] \<and> deep_copy_of old (settings_val s)
              \<and> shallow_copy_of new (settings_val s'))))"
proof -
  have wf: "wf_settings (after_sets co s0 calls)" using assms by (rule wf_after_sets)
  show ?thesis
    unfolding Let_def
    using set_string_props[OF wf, of co key v] set_object_props[OF wf, of co b partial v]
    by (auto split: prod.splits)
qed

theorem PluginSettings_set_change_witness:
  "wf_settings example_settings \<and>
   (let s = after_sets (\<lambda>x y. False) example_settings [(JStr ''a'', JNum 2)] in
     (case PluginSettings_set (\<lambda>x y. False) s (JStr ''a'') (JNum 3) of (s', evs) \<Rightarrow>
         (evs \<noteq> [] \<longleftrightarrow> PluginSettings_get s' ''a'' \<noteq> PluginSettings_get s ''a'')
       \<and> (\<forall>k'. k' \<noteq> ''a'' \<longrightarrow> PluginSettings_get s' k' = PluginSettings_get s k')
       \<and> (evs = [] \<or> (\<exists>new old. evs = [Change new old] \<and> deep_copy_of old (settings_val s)
              \<and> shallow_copy_of new (settings_val s'))))
   \<and> (case PluginSettings_set (\<lambda>x y. False) s (JObj 9 [(''z'', JNull)]) (JNum 3) of (s', evs) \<Rightarrow>
         (\<forall>k'. k' \<notin> fst ` set [(''z'', JNull)] \<longrightarrow>
            erase (PluginSettings_get s' k') = erase (PluginSettings_get s k'))
       \<and> (\<exists>new old. evs = [Change new old] \<and> deep_copy_of old (settings_val s)
              \<and> shallow_copy_of new (settings_val s'))))"
proof -
  have h: "wf_settings example_settings"
    by (simp add: example_settings_eval wf_settings_def)
  from h PluginSettings_set_change[OF h, where co = "\<lambda>x y. False"
      and calls = "[(JStr ''a'', JNum 2)]" and key = "''a''" and v = "JNum 3" and b = 9
      and partial = "[(''z'', JNull)]"]
  show ?thesis by (rule conjI)
qed

text \<open>
  Claim C6 as stated fails for the new snapshot: with a nested object in the settings,
  the snapshot built by \<^verbatim>\<open>Object.assign({}, this._settings)\<close> shares that object
  (address 1 below) with the store, so it is not a deep copy.
\<close>

theorem set_new_snapshot_not_deep:
  "snd (PluginSettings_set (\<lambda>x y. False) example_settings (JStr ''b'') (JNum 1)) =
     [Change (JObj 6 [(''disabled'', JBool False), (''theme'', JObj 1 [(''x'', JNum 1)]), (''b'', JNum 1)])
             (JObj 4 [(''disabled'', JBool False), (''theme'', JObj 5 [(''x'', JNum 1)])])]
   \<and> \<not> deep_copy_of
        (JObj 6 [(''disabled'', JBool False), (''theme'', JObj 1 [(''x'', JNum 1)]), (''b'', JNum 1)])
        (settings_val (fst (PluginSettings_set (\<lambda>x y. False) example_settings (JStr ''b'') (JNum 1))))"
  by (simp add: example_set_eval settings_val_def deep_copy_of_def)

text \<open>
  Claim C7 (the code departs from it). After the constructor \<^verbatim>\<open>get('disabled')\<close> is
  \<^verbatim>\<open>false\<close>; after \<^verbatim>\<open>reset()\<close> it is \<^verbatim>\<open>undefined\<close>, not a boolean.
\<close>

theorem reset_disabled_undefined:
  "PluginSettings_get (PluginSettings_new None None) ''disabled'' = JBool False \<and>
   PluginSettings_get (fst (PluginSettings_reset (PluginSettings_new None None))) ''disabled''
     = JUndefined"
  by (simp add: PluginSettings_get_def PluginSettings_reset_def PluginSettings_new_def getprop_def
        obj_assign_def Let_def)

subsection \<open>Hooks and themes\<close>

text \<open>
  Claim C8, as amended. When the target identity of a hook dispatch names a registered
  unit that is not disabled and has an entry, the hook message is sent through that
  unit's sandbox channel if the unit has one, and nothing is sent otherwise; no other
  unit receives anything.
\<close>

theorem hook_targeted:
  assumes "str_truthy pid" and "map_of (registeredPlugins c) (the pid) = Some p"
    and "\<not> truthy (disabled p)" and "truthy (opt_entry (options p))"
  shows "hook env ns type payload pid c =
     (if caller p
      then c\<lparr> trace := trace c @
                [CallUserModel (plugin_id p) (LSPMSG ns (safeSnakeCase env type) payload)] \<rparr>
      else c)"
  using assms by (simp add: hook_def act_def emit_def)

theorem hook_targeted_witness:
  "str_truthy (Some ''demo-id'')
   \<and> map_of (registeredPlugins core_registered) (the (Some ''demo-id''))
       = Some (the (map_of (registeredPlugins core_registered) ''demo-id''))
   \<and> \<not> truthy (disabled (the (map_of (registeredPlugins core_registered) ''demo-id'')))
   \<and> truthy (opt_entry (options (the (map_of (registeredPlugins core_registered) ''demo-id''))))
   \<and> hook demo_env ''hook:app'' ''today_journal_created'' JNull (Some ''demo-id'') core_registered =
     (if caller (the (map_of (registeredPlugins core_registered) ''demo-id''))
      then core_registered\<lparr> trace := trace core_registered @
                [CallUserModel (plugin_id (the (map_of (registeredPlugins core_registered) ''demo-id'')))
                   (LSPMSG ''hook:app'' (safeSnakeCase demo_env ''today_journal_created'') JNull)] \<rparr>
      else core_registered)"
proof -
  have h1: "str_truthy (Some ''demo-id'')" by code_simp
  have h2: "map_of (registeredPlugins core_registered) (the (Some ''demo-id''))
       = Some (the (map_of (registeredPlugins core_registered) ''demo-id''))" by code_simp
  have h3: "\<not> truthy (disabled (the (map_of (registeredPlugins core_registered) ''demo-id'')))"
    by code_simp
  have h4: "truthy (opt_entry (options (the (map_of (registeredPlugins core_registered) ''demo-id''))))"
    by code_simp
  from hook_targeted[OF h1 h2 h3 h4] h1 h2 h3 h4 show ?thesis by blast
qed

text \<open>
  Claim C8 as stated fails for a unit without a channel. A unit whose entry document
  could not be written is registered with its load error; it is enabled and has an
  entry, and a hook dispatched to it is delivered to nobody.
\<close>

theorem hook_target_without_channel:
  "map_of (registeredPlugins core_failed_write) ''demo-id''
       = Some (the (map_of (registeredPlugins core_failed_write) ''demo-id''))
   \<and> \<not> truthy (disabled (the (map_of (registeredPlugins core_failed_write) ''demo-id'')))
   \<and> truthy (opt_entry (options (the (map_of (registeredPlugins core_failed_write) ''demo-id''))))
   \<and> hook env_write_fails ''hook:app'' ''today_journal_created'' JNull (Some ''demo-id'') core_failed_write
       = core_failed_write
   \<and> sandbox_messages (trace (hook env_write_fails ''hook:app'' ''today_journal_created'' JNull
         (Some ''demo-id'') core_failed_write)) = []"
  by code_simp

text \<open>
  Claim C9, as amended. For an identity that has an entry in the registered themes and
  owns the active theme, \<^verbatim>\<open>unregisterTheme(identity, true)\<close> drops the entry, emits
  \<^verbatim>\<open>themes-changed\<close>, ejects the active theme and clears its record, sets the
  preference fields (legacy theme, light, dark) whose pid is the identity to
  \<^verbatim>\<open>null\<close>, saves the preferences through the host and emits
  \<^verbatim>\<open>reset-custom-theme\<close>, in this order.
\<close>

theorem unregisterTheme_active:
  assumes "map_of (registeredThemes c) pid \<noteq> None"
    and "currentTheme c = Some t" and "theme_pid t = pid"
  shows "unregisterTheme pid True c =
     c\<lparr> registeredThemes := AList.delete pid (registeredThemes c),
        currentTheme := None,
        userPreferences := (userPreferences c)
           \<lparr> pref_theme := clear_pid pid (pref_theme (userPreferences c)),
             pref_light := clear_pid pid (pref_light (userPreferences c)),
             pref_dark := clear_pid pid (pref_dark (userPreferences c)) \<rparr>,
        trace := trace c @
           [CoreEmit (EvThemesChanged pid), EjectTheme (theme_url t),
            SaveUserPreferences ((userPreferences c)
              \<lparr> pref_theme := clear_pid pid (pref_theme (userPreferences c)),
                pref_light := clear_pid pid (pref_light (userPreferences c)),
                pref_dark := clear_pid pid (pref_dark (userPreferences c)) \<rparr>),
            CoreEmit EvResetCustomTheme] \<rparr>"
  using assms by (auto simp: unregisterTheme_def emit_def saveUserPreferences_def Let_def)

theorem unregisterTheme_active_witness:
  "map_of (registeredThemes core_theme_registered) ''demo-id'' \<noteq> None
   \<and> currentTheme core_theme_registered = Some demo_theme
   \<and> theme_pid demo_theme = ''demo-id''
   \<and> unregisterTheme ''demo-id'' True core_theme_registered =
     core_theme_registered\<lparr> registeredThemes := AList.delete ''demo-id'' (registeredThemes core_theme_registered),
        currentTheme := None,
        userPreferences := (userPreferences core_theme_registered)
           \<lparr> pref_theme := clear_pid ''demo-id'' (pref_theme (userPreferences core_theme_registered)),
             pref_light := clear_pid ''demo-id'' (pref_light (userPreferences core_theme_registered)),
             pref_dark := clear_pid ''demo-id'' (pref_dark (userPreferences core_theme_registered)) \<rparr>,
        trace := trace core_theme_registered @
           [CoreEmit (EvThemesChanged ''demo-id''), EjectTheme (theme_url demo_theme),
            SaveUserPreferences ((userPreferences core_theme_registered)
              \<lparr> pref_theme := clear_pid ''demo-id'' (pref_theme (userPreferences core_theme_registered)),
                pref_light := clear_pid ''demo-id'' (pref_light (userPreferences core_theme_registered)),
                pref_dark := clear_pid ''demo-id'' (pref_dark (userPreferences core_theme_registered)) \<rparr>),
            CoreEmit EvResetCustomTheme] \<rparr>"
proof -
  have h1: "map_of (registeredThemes core_theme_registered) ''demo-id'' \<noteq> None" by code_simp
  have h2: "currentTheme core_theme_registered = Some demo_theme" by code_simp
  have h3: "theme_pid demo_theme = ''demo-id''" by code_simp
  from unregisterTheme_active[OF h1 h2 h3] h1 h2 h3 show ?thesis by blast
qed

text \<open>
  Claim C9 as stated fails for an identity that owns the active theme without a
  registered contribution: the active theme stays and nothing is emitted.
\<close>

theorem unregisterTheme_active_unregistered:
  "currentTheme core_theme_from_prefs = Some demo_theme
   \<and> theme_pid demo_theme = ''demo-id''
   \<and> currentTheme (unregisterTheme ''demo-id'' True core_theme_from_prefs) = Some demo_theme
   \<and> trace (unregisterTheme ''demo-id'' True core_theme_from_prefs) = trace core_theme_from_prefs"
  by code_simp

text \<open>
  Claim C10. For an identity with no entry in the registered themes,
  \<^verbatim>\<open>unregisterTheme(identity, effect)\<close> changes nothing: no event, no ejection, the
  active theme and the preferences as they were, also when the active theme's pid is
  that identity.
\<close>

theorem unregisterTheme_unknown_noop:
  assumes "map_of (registeredThemes c) pid = None"
  shows "unregisterTheme pid effect c = c"
  using assms by (simp add: unregisterTheme_def)

theorem unregisterTheme_unknown_noop_witness:
  "map_of (registeredThemes core_theme_from_prefs) ''demo-id'' = None
   \<and> unregisterTheme ''demo-id'' True core_theme_from_prefs = core_theme_from_prefs"
proof -
  have h: "map_of (registeredThemes core_theme_from_prefs) ''demo-id'' = None" by code_simp
  from h unregisterTheme_unknown_noop[OF h] show ?thesis by (rule conjI)
qed

end
